theory Spec2Isabelle
  imports Complex_Main
begin

section \<open>Values of the tensor library\<close>

text \<open>
  The script lenet.py is glue code around a tensor library. Tensors are nested lists of
  reals: a tensor of shape (N, C) is a list of N rows of C entries, a tensor of shape
  (N, C, H, W) a list of N images of C channels of H rows of W entries. The rounding of
  the 32-bit floating-point numbers of the library is not part of the model; the values
  NaN and infinity appear only where the script's own division produces them.
\<close>

datatype error = AttributeError | ZeroDivisionError | RuntimeError | IndexError

datatype tfloat = Fin real | PosInf | NaN

type_synonym mat = "real list list"
type_synonym image = "real list list list"

definition and_then :: "error + 'a \<Rightarrow> ('a \<Rightarrow> error + 'b) \<Rightarrow> error + 'b" where
  "and_then r f = (case r of Inl e \<Rightarrow> Inl e | Inr v \<Rightarrow> f v)"

subsection \<open>Data loaders\<close>

text \<open>
  A batch is the pair (X, y_true): X holds one entry per sample (X.size(0) is its
  length), y_true one integer label per sample. A data loader knows the length of its
  dataset (len(data_loader.dataset)) and is traversed by a for loop; with shuffle=True
  every traversal yields the batches in a new order, so the loader carries the number of
  traversals made so far and the k-th traversal yields \<open>traversals dl k\<close>.
\<close>

type_synonym 's batch = "'s list \<times> int list"

record 's data_loader =
  dataset_len :: nat
  traversals :: "nat \<Rightarrow> 's batch list"
  cursor :: nat

definition iterate :: "'s data_loader \<Rightarrow> 's batch list \<times> 's data_loader" where
  "iterate dl = (traversals dl (cursor dl), dl\<lparr>cursor := Suc (cursor dl)\<rparr>)"

subsection \<open>Modules\<close>

text \<open>
  A module (nn.Module) owns its parameters, the gradients accumulated on them and the
  training flag that model.train() and model.eval() set. Calling the module runs its
  forward function on the current parameters and flag and returns the pair
  (logits, probs), or raises. The forward function reads the parameters and does not
  change them; the layers of the script are of this kind.
\<close>

record ('p, 'g, 's) module =
  forward :: "'p \<Rightarrow> bool \<Rightarrow> 's list \<Rightarrow> error + (mat \<times> mat)"
  parameters :: 'p
  grad :: "'g option"
  training :: bool

definition apply_model :: "('p, 'g, 's) module \<Rightarrow> 's list \<Rightarrow> error + (mat \<times> mat)" where
  "apply_model model X = forward model (parameters model) (training model) X"

definition train_mode :: "('p, 'g, 's) module \<Rightarrow> ('p, 'g, 's) module" where
  "train_mode model = model\<lparr>training := True\<rparr>"

definition eval_mode :: "('p, 'g, 's) module \<Rightarrow> ('p, 'g, 's) module" where
  "eval_mode model = model\<lparr>training := False\<rparr>"

subsection \<open>torch.max along dimension 1, comparison of label tensors\<close>

text \<open>
  torch.max(t, 1) returns for every row its maximum and the index of the first maximal
  entry; a row without entries is an error (IndexError).
\<close>

fun argmax_from :: "nat \<Rightarrow> real \<Rightarrow> nat \<Rightarrow> real list \<Rightarrow> nat" where
  "argmax_from bi bv i [] = bi"
| "argmax_from bi bv i (x # xs) =
     (if bv < x then argmax_from i x (Suc i) xs else argmax_from bi bv (Suc i) xs)"

definition argmax :: "real list \<Rightarrow> nat" where
  "argmax row = (case row of [] \<Rightarrow> 0 | x # xs \<Rightarrow> argmax_from 0 x 1 xs)"

definition torch_max_dim1 :: "mat \<Rightarrow> error + nat list" where
  "torch_max_dim1 t = (if [] \<in> set t then Inl IndexError else Inr (map argmax t))"

text \<open>
  (predicted_labels == y_true).sum(): the number of positions where the two one-dimensional
  tensors agree. Tensors of different lengths are broadcast when one of them has exactly
  one entry, and are an error otherwise.
\<close>

definition eq_sum :: "nat list \<Rightarrow> int list \<Rightarrow> error + nat" where
  "eq_sum predicted_labels y_true =
     (if length predicted_labels = length y_true
      then Inr (length (filter (\<lambda>(p, y). int p = y) (zip predicted_labels y_true)))
      else if length predicted_labels = 1
      then Inr (length (filter (\<lambda>y. int (hd predicted_labels) = y) y_true))
      else if length y_true = 1
      then Inr (length (filter (\<lambda>p. int p = hd y_true) predicted_labels))
      else Inl RuntimeError)"

text \<open>
  correct_pred starts as the Python integer 0 and becomes a tensor with the first
  \<open>+=\<close> of a tensor. Only a tensor has the method float().
\<close>

datatype counter = PyInt nat | Tensor nat

fun counter_add :: "counter \<Rightarrow> nat \<Rightarrow> counter" where
  "counter_add (PyInt i) c = Tensor (i + c)"
| "counter_add (Tensor t) c = Tensor (t + c)"

text \<open>Division of a float tensor by a Python integer: no exception, 0/0 is NaN.\<close>

definition true_divide :: "nat \<Rightarrow> nat \<Rightarrow> tfloat" where
  "true_divide c n =
     (if n = 0 then (if c = 0 then NaN else PosInf) else Fin (real c / real n))"

section \<open>get_accuracy\<close>

text \<open>
  The routines of the script take a device. Moving a tensor to a device does not change
  its entries, and torch.no_grad() only stops the library from recording operations for
  differentiation, so neither appears below. Each routine returns, beside the value that
  the Python function returns, the objects that the call has mutated.
\<close>

fun accuracy_batches ::
  "('p, 'g, 's) module \<Rightarrow> 's batch list \<Rightarrow> counter \<times> nat \<Rightarrow> error + (counter \<times> nat)" where
  "accuracy_batches model [] acc = Inr acc"
| "accuracy_batches model ((X, y_true) # rest) (correct_pred, n) =
     (case apply_model model X of
        Inl e \<Rightarrow> Inl e
      | Inr (_, y_prob) \<Rightarrow>
          (case torch_max_dim1 y_prob of
             Inl e \<Rightarrow> Inl e
           | Inr predicted_labels \<Rightarrow>
               (case eq_sum predicted_labels y_true of
                  Inl e \<Rightarrow> Inl e
                | Inr c \<Rightarrow>
                    accuracy_batches model rest
                      (counter_add correct_pred c, n + length y_true))))"

definition get_accuracy ::
  "('p, 'g, 's) module \<Rightarrow> 's data_loader \<Rightarrow>
     error + (tfloat \<times> ('p, 'g, 's) module \<times> 's data_loader)" where
  "get_accuracy model data_loader =
     (let model' = eval_mode model;
          (batches, data_loader') = iterate data_loader
      in case accuracy_batches model' batches (PyInt 0, 0) of
           Inl e \<Rightarrow> Inl e
         | Inr (correct_pred, n) \<Rightarrow>
             (case correct_pred of
                PyInt _ \<Rightarrow> Inl AttributeError
              | Tensor c \<Rightarrow> Inr (true_divide c n, model', data_loader')))"

section \<open>Loss function, automatic differentiation and optimizer\<close>

text \<open>
  criterion(y_hat, y_true) is the loss of a batch (loss.item() reads it as a number), or
  raises. loss.backward() adds to the gradient stored on the parameters the gradient of
  that loss, taken at the current parameters; the library computes it, so the function
  that gives it is an argument of the routines that train. optimizer.zero_grad() forgets the stored
  gradient, and optimizer.step() computes new parameters and a new optimizer state from
  the old ones and the stored gradient. The optimizer is the one built on
  model.parameters(), as in the script.
\<close>

type_synonym criterion = "mat \<Rightarrow> int list \<Rightarrow> error + real"

type_synonym ('p, 'g, 's) autograd =
  "('p, 'g, 's) module \<Rightarrow> criterion \<Rightarrow> 's batch \<Rightarrow> 'g"

record ('p, 'g, 'o) optimizer =
  opt_state :: 'o
  update :: "'o \<Rightarrow> 'p \<Rightarrow> 'g option \<Rightarrow> 'o \<times> 'p"

definition zero_grad ::
  "('p, 'g, 'o) optimizer \<Rightarrow> ('p, 'g, 's) module \<Rightarrow> ('p, 'g, 's) module" where
  "zero_grad optimizer model = model\<lparr>grad := None\<rparr>"

definition backward ::
  "('p, 'g :: plus, 's) autograd \<Rightarrow> criterion \<Rightarrow> 's batch \<Rightarrow> ('p, 'g, 's) module \<Rightarrow>
     ('p, 'g, 's) module" where
  "backward autograd criterion b model =
     model\<lparr>grad := Some (case grad model of
                            None \<Rightarrow> autograd model criterion b
                          | Some g \<Rightarrow> g + autograd model criterion b)\<rparr>"

definition step ::
  "('p, 'g, 'o) optimizer \<Rightarrow> ('p, 'g, 's) module \<Rightarrow>
     ('p, 'g, 's) module \<times> ('p, 'g, 'o) optimizer" where
  "step optimizer model =
     (let (st, p) = update optimizer (opt_state optimizer) (parameters model) (grad model)
      in (model\<lparr>parameters := p\<rparr>, optimizer\<lparr>opt_state := st\<rparr>))"

section \<open>train\<close>

fun train_batches ::
  "('p, 'g :: plus, 's) autograd \<Rightarrow> criterion \<Rightarrow> 's batch list \<Rightarrow>
     ('p, 'g, 's) module \<times> ('p, 'g, 'o) optimizer \<times> real \<Rightarrow>
     error + (('p, 'g, 's) module \<times> ('p, 'g, 'o) optimizer \<times> real)" where
  "train_batches autograd criterion [] st = Inr st"
| "train_batches autograd criterion ((X, y_true) # rest) (model, optimizer, running_loss) =
     (let model1 = zero_grad optimizer model
      in case apply_model model1 X of
           Inl e \<Rightarrow> Inl e
         | Inr (y_hat, _) \<Rightarrow>
             (case criterion y_hat y_true of
                Inl e \<Rightarrow> Inl e
              | Inr loss \<Rightarrow>
                  (let running_loss' = running_loss + loss * real (length X);
                       model2 = backward autograd criterion (X, y_true) model1;
                       (model3, optimizer') = step optimizer model2
                   in train_batches autograd criterion rest
                        (model3, optimizer', running_loss'))))"

definition train ::
  "('p, 'g :: plus, 's) autograd \<Rightarrow> 's data_loader \<Rightarrow> ('p, 'g, 's) module \<Rightarrow> criterion \<Rightarrow>
     ('p, 'g, 'o) optimizer \<Rightarrow>
     error + (('p, 'g, 's) module \<times> ('p, 'g, 'o) optimizer \<times> real \<times> 's data_loader)" where
  "train autograd train_loader model criterion optimizer =
     (let (batches, train_loader') = iterate train_loader
      in case train_batches autograd criterion batches (train_mode model, optimizer, 0) of
           Inl e \<Rightarrow> Inl e
         | Inr (model', optimizer', running_loss) \<Rightarrow>
             if dataset_len train_loader = 0 then Inl ZeroDivisionError
             else Inr (model', optimizer',
                       running_loss / real (dataset_len train_loader), train_loader'))"

section \<open>validate\<close>

fun validate_batches ::
  "criterion \<Rightarrow> 's batch list \<Rightarrow> ('p, 'g, 's) module \<times> real \<Rightarrow>
     error + (('p, 'g, 's) module \<times> real)" where
  "validate_batches criterion [] st = Inr st"
| "validate_batches criterion ((X, y_true) # rest) (model, running_loss) =
     (case apply_model model X of
        Inl e \<Rightarrow> Inl e
      | Inr (y_hat, _) \<Rightarrow>
          (case criterion y_hat y_true of
             Inl e \<Rightarrow> Inl e
           | Inr loss \<Rightarrow>
               validate_batches criterion rest (model, running_loss + loss * real (length X))))"

text \<open>
  validate changes the model object by model.eval() only, before the loop. The first
  component of its result is the model object as the call leaves it, whether the call
  returns or raises; the second is the outcome: the error raised, or the epoch loss with
  the loader after the traversal. The Python function returns the model and the epoch
  loss.
\<close>

definition validate ::
  "'s data_loader \<Rightarrow> ('p, 'g, 's) module \<Rightarrow> criterion \<Rightarrow>
     ('p, 'g, 's) module \<times> (error + (real \<times> 's data_loader))" where
  "validate valid_loader model criterion =
     (let model0 = eval_mode model;
          (batches, valid_loader') = iterate valid_loader
      in case validate_batches criterion batches (model0, 0) of
           Inl e \<Rightarrow> (model0, Inl e)
         | Inr (model', running_loss) \<Rightarrow>
             if dataset_len valid_loader = 0 then (model', Inl ZeroDivisionError)
             else (model', Inr (running_loss / real (dataset_len valid_loader), valid_loader')))"

section \<open>plot_losses and training_loop\<close>

text \<open>
  plot_losses draws the two histories as curves of one figure and returns nothing (with
  a plotting library that knows the style the function selects). A line
  printed by the loop holds the epoch, the two losses of the epoch and the two accuracies;
  the time of day that starts the line and the rounding of the numbers to 4 and 2 decimals
  are not modelled.
\<close>

record figure =
  training_curve :: "real list"
  validation_curve :: "real list"

definition plot_losses :: "real list \<Rightarrow> real list \<Rightarrow> figure" where
  "plot_losses train_losses valid_losses =
     \<lparr>training_curve = train_losses, validation_curve = valid_losses\<rparr>"

record log_line =
  log_epoch :: nat
  log_train_loss :: real
  log_valid_loss :: real
  log_train_acc :: tfloat
  log_valid_acc :: tfloat

text \<open>
  The state of the loop: the objects it rebinds or mutates (model, optimizer, the two
  histories), the two loaders it traverses, the lines printed so far and the figure shown.
  training_loop returns (model, optimizer, (train_losses, valid_losses)); the other fields
  are its effects.
\<close>

record ('p, 'g, 's, 'o) run =
  run_model :: "('p, 'g, 's) module"
  run_optimizer :: "('p, 'g, 'o) optimizer"
  train_losses :: "real list"
  valid_losses :: "real list"
  run_train_loader :: "'s data_loader"
  run_valid_loader :: "'s data_loader"
  console :: "log_line list"
  shown :: "figure option"

definition epoch_body ::
  "('p, 'g :: plus, 's) autograd \<Rightarrow> criterion \<Rightarrow> int \<Rightarrow> nat \<Rightarrow> ('p, 'g, 's, 'o) run \<Rightarrow>
     error + ('p, 'g, 's, 'o) run" where
  "epoch_body autograd criterion print_every epoch s =
     (case train autograd (run_train_loader s) (run_model s) criterion (run_optimizer s) of
        Inl e \<Rightarrow> Inl e
      | Inr (model1, optimizer1, train_loss, train_loader1) \<Rightarrow>
          (case validate (run_valid_loader s) model1 criterion of
             (model2, Inl e) \<Rightarrow> Inl e
           | (model2, Inr (valid_loss, valid_loader1)) \<Rightarrow>
               (let s1 = s\<lparr>run_model := model2, run_optimizer := optimizer1,
                            train_losses := train_losses s @ [train_loss],
                            valid_losses := valid_losses s @ [valid_loss],
                            run_train_loader := train_loader1,
                            run_valid_loader := valid_loader1\<rparr>
                in if print_every = 0 then Inl ZeroDivisionError
                   else if int epoch mod print_every = print_every - 1
                   then (case get_accuracy model2 train_loader1 of
                           Inl e \<Rightarrow> Inl e
                         | Inr (train_acc, model3, train_loader2) \<Rightarrow>
                             (case get_accuracy model3 valid_loader1 of
                                Inl e \<Rightarrow> Inl e
                              | Inr (valid_acc, model4, valid_loader2) \<Rightarrow>
                                  Inr (s1\<lparr>run_model := model4,
                                          run_train_loader := train_loader2,
                                          run_valid_loader := valid_loader2,
                                          console := console s1 @
                                            [\<lparr>log_epoch = epoch, log_train_loss = train_loss,
                                              log_valid_loss = valid_loss,
                                              log_train_acc = train_acc,
                                              log_valid_acc = valid_acc\<rparr>]\<rparr>)))
                   else Inr s1)))"

fun for_epochs ::
  "('p, 'g :: plus, 's) autograd \<Rightarrow> criterion \<Rightarrow> int \<Rightarrow> nat list \<Rightarrow> ('p, 'g, 's, 'o) run \<Rightarrow>
     error + ('p, 'g, 's, 'o) run" where
  "for_epochs autograd criterion print_every [] s = Inr s"
| "for_epochs autograd criterion print_every (epoch # rest) s =
     (case epoch_body autograd criterion print_every epoch s of
        Inl e \<Rightarrow> Inl e
      | Inr s' \<Rightarrow> for_epochs autograd criterion print_every rest s')"

text \<open>range(epochs) is empty for a negative number of epochs.\<close>

definition training_loop ::
  "('p, 'g :: plus, 's) autograd \<Rightarrow> ('p, 'g, 's) module \<Rightarrow> criterion \<Rightarrow>
     ('p, 'g, 'o) optimizer \<Rightarrow> 's data_loader \<Rightarrow> 's data_loader \<Rightarrow> int \<Rightarrow> int \<Rightarrow>
     error + ('p, 'g, 's, 'o) run" where
  "training_loop autograd model0 criterion optimizer0 train_loader0 valid_loader0 epochs
       print_every =
     (case for_epochs autograd criterion print_every [0..<nat epochs]
             \<lparr>run_model = model0, run_optimizer = optimizer0, train_losses = [],
              valid_losses = [], run_train_loader = train_loader0,
              run_valid_loader = valid_loader0, console = [],
              shown = None\<rparr> of
        Inl e \<Rightarrow> Inl e
      | Inr s \<Rightarrow> Inr (s\<lparr>shown := Some (plot_losses (train_losses s) (valid_losses s))\<rparr>))"

section \<open>The layers of the network\<close>

text \<open>
  The layers are those of the tensor library, written out on nested lists. A batch of
  images is a list of images, an image a list of channels, a channel a list of rows. The
  library refuses (RuntimeError) an input whose number of channels or features is not
  the layer's, and an image smaller than the kernel.
\<close>

record conv2d =
  in_channels :: nat
  out_channels :: nat
  kernel_size :: nat
  conv_weight :: "real list list list list"
  conv_bias :: "real list"

record linear =
  in_features :: nat
  out_features :: nat
  lin_weight :: "real list list"
  lin_bias :: "real list"

text \<open>
  The constructors create the parameters of a layer: a weight of shape
  (out_channels, in_channels, kernel_size, kernel_size) and a bias of shape (out_channels)
  for a convolution, a weight of shape (out_features, in_features) and a bias of shape
  (out_features) for a linear layer. Their entries are drawn from the seeded random
  generator; \<open>w0\<close> and \<open>b0\<close> give the value drawn for each entry.
\<close>

definition Conv2d ::
  "nat \<Rightarrow> nat \<Rightarrow> nat \<Rightarrow> (nat list \<Rightarrow> real) \<Rightarrow> (nat list \<Rightarrow> real) \<Rightarrow> conv2d" where
  "Conv2d cin cout k w0 b0 =
     \<lparr>in_channels = cin, out_channels = cout, kernel_size = k,
      conv_weight =
        map (\<lambda>oc. map (\<lambda>c. map (\<lambda>i. map (\<lambda>j. w0 [oc, c, i, j]) [0..<k]) [0..<k]) [0..<cin])
          [0..<cout],
      conv_bias = map (\<lambda>oc. b0 [oc]) [0..<cout]\<rparr>"

definition Linear :: "nat \<Rightarrow> nat \<Rightarrow> (nat list \<Rightarrow> real) \<Rightarrow> (nat list \<Rightarrow> real) \<Rightarrow> linear" where
  "Linear fin fout w0 b0 =
     \<lparr>in_features = fin, out_features = fout,
      lin_weight = map (\<lambda>oc. map (\<lambda>i. w0 [oc, i]) [0..<fin]) [0..<fout],
      lin_bias = map (\<lambda>oc. b0 [oc]) [0..<fout]\<rparr>"

definition height :: "image \<Rightarrow> nat" where
  "height img = (case img of [] \<Rightarrow> 0 | ch # _ \<Rightarrow> length ch)"

definition width :: "image \<Rightarrow> nat" where
  "width img = (case img of [] \<Rightarrow> 0 | ch # _ \<Rightarrow> (case ch of [] \<Rightarrow> 0 | row # _ \<Rightarrow> length row))"

definition conv2d_image :: "conv2d \<Rightarrow> image \<Rightarrow> image" where
  "conv2d_image layer img =
     map (\<lambda>oc.
       map (\<lambda>i.
         map (\<lambda>j.
           conv_bias layer ! oc
           + sum_list (map (\<lambda>c.
               sum_list (map (\<lambda>di.
                 sum_list (map (\<lambda>dj.
                   conv_weight layer ! oc ! c ! di ! dj * img ! c ! (i + di) ! (j + dj))
                   [0..<kernel_size layer]))
                 [0..<kernel_size layer]))
               [0..<in_channels layer]))
           [0..<width img - kernel_size layer + 1])
         [0..<height img - kernel_size layer + 1])
       [0..<out_channels layer]"

definition conv2d_forward :: "conv2d \<Rightarrow> image list \<Rightarrow> error + image list" where
  "conv2d_forward layer x =
     (if \<exists>img \<in> set x. length img \<noteq> in_channels layer
           \<or> height img < kernel_size layer \<or> width img < kernel_size layer
      then Inl RuntimeError
      else Inr (map (conv2d_image layer) x))"

text \<open>
  AvgPool2d(kernel_size=k) moves a k by k window in steps of k and averages it; a window
  that does not fit at the border is dropped.
\<close>

definition avg_pool2d_image :: "nat \<Rightarrow> image \<Rightarrow> image" where
  "avg_pool2d_image k img =
     map (\<lambda>ch.
       map (\<lambda>i.
         map (\<lambda>j.
           sum_list (map (\<lambda>di.
             sum_list (map (\<lambda>dj. ch ! (i * k + di) ! (j * k + dj)) [0..<k]))
             [0..<k])
           / real (k * k))
           [0..<(width img - k) div k + 1])
         [0..<(height img - k) div k + 1])
       img"

definition avg_pool2d_forward :: "nat \<Rightarrow> image list \<Rightarrow> error + image list" where
  "avg_pool2d_forward k x =
     (if k = 0 \<or> (\<exists>img \<in> set x. height img < k \<or> width img < k)
      then Inl RuntimeError
      else Inr (map (avg_pool2d_image k) x))"

definition tanh_forward :: "image list \<Rightarrow> image list" where
  "tanh_forward x = map (map (map (map tanh))) x"

definition linear_forward :: "linear \<Rightarrow> mat \<Rightarrow> error + mat" where
  "linear_forward layer x =
     (if \<exists>row \<in> set x. length row \<noteq> in_features layer
      then Inl RuntimeError
      else Inr (map (\<lambda>row.
                  map (\<lambda>oc.
                    lin_bias layer ! oc
                    + sum_list (map (\<lambda>i. lin_weight layer ! oc ! i * row ! i)
                        [0..<in_features layer]))
                    [0..<out_features layer])
                  x))"

text \<open>torch.flatten(x, 1) and F.softmax(logits, dim=1).\<close>

definition flatten :: "image list \<Rightarrow> mat" where
  "flatten x = map (\<lambda>img. concat (concat img)) x"

definition softmax :: "mat \<Rightarrow> mat" where
  "softmax logits = map (\<lambda>row. map (\<lambda>v. exp v / sum_list (map exp row)) row) logits"

subsection \<open>nn.Sequential\<close>

datatype feature_layer = Conv conv2d | Tanh | AvgPool nat

datatype classifier_layer = Lin linear | Tanh1

fun feature_layer_forward :: "feature_layer \<Rightarrow> image list \<Rightarrow> error + image list" where
  "feature_layer_forward (Conv layer) x = conv2d_forward layer x"
| "feature_layer_forward Tanh x = Inr (tanh_forward x)"
| "feature_layer_forward (AvgPool k) x = avg_pool2d_forward k x"

fun classifier_layer_forward :: "classifier_layer \<Rightarrow> mat \<Rightarrow> error + mat" where
  "classifier_layer_forward (Lin layer) x = linear_forward layer x"
| "classifier_layer_forward Tanh1 x = Inr (map (map tanh) x)"

fun feature_sequential :: "feature_layer list \<Rightarrow> image list \<Rightarrow> error + image list" where
  "feature_sequential [] x = Inr x"
| "feature_sequential (layer # rest) x =
     and_then (feature_layer_forward layer x) (feature_sequential rest)"

fun classifier_sequential :: "classifier_layer list \<Rightarrow> mat \<Rightarrow> error + mat" where
  "classifier_sequential [] x = Inr x"
| "classifier_sequential (layer # rest) x =
     and_then (classifier_layer_forward layer x) (classifier_sequential rest)"

section \<open>LeNet5\<close>

definition N_CLASSES :: nat where
  "N_CLASSES = 10"

record LeNet5 =
  feature_extractor :: "feature_layer list"
  classifier :: "classifier_layer list"

text \<open>
  __init__: \<open>rnd k\<close> gives the initial entries of the k-th parameter tensor, in the
  order in which the layers are created.
\<close>

definition LeNet5_init :: "nat \<Rightarrow> (nat \<Rightarrow> nat list \<Rightarrow> real) \<Rightarrow> LeNet5" where
  "LeNet5_init n_classes rnd =
     \<lparr>feature_extractor =
        [Conv (Conv2d 1 6 5 (rnd 0) (rnd 1)),
         Tanh,
         AvgPool 2,
         Conv (Conv2d 6 16 5 (rnd 2) (rnd 3)),
         Tanh,
         AvgPool 2,
         Conv (Conv2d 16 120 5 (rnd 4) (rnd 5)),
         Tanh],
      classifier =
        [Lin (Linear 120 84 (rnd 6) (rnd 7)),
         Tanh1,
         Lin (Linear 84 n_classes (rnd 8) (rnd 9))]\<rparr>"

definition LeNet5_forward :: "LeNet5 \<Rightarrow> image list \<Rightarrow> error + (mat \<times> mat)" where
  "LeNet5_forward self x =
     (case feature_sequential (feature_extractor self) x of
        Inl e \<Rightarrow> Inl e
      | Inr x1 \<Rightarrow>
          (let x2 = flatten x1
           in case classifier_sequential (classifier self) x2 of
                Inl e \<Rightarrow> Inl e
              | Inr logits \<Rightarrow> (let probs = softmax logits in Inr (logits, probs))))"

text \<open>The module of the script: the network with its forward function.\<close>

definition LeNet5_module :: "(nat \<Rightarrow> nat list \<Rightarrow> real) \<Rightarrow> (LeNet5, 'g, image) module" where
  "LeNet5_module rnd =
     \<lparr>forward = (\<lambda>p t x. LeNet5_forward p x), parameters = LeNet5_init N_CLASSES rnd,
      grad = None, training = True\<rparr>"

section \<open>Vocabulary of the specification\<close>

text \<open>The batches that the next traversal of a loader yields.\<close>

definition next_batches :: "'s data_loader \<Rightarrow> 's batch list" where
  "next_batches data_loader = fst (iterate data_loader)"

text \<open>The loader after one traversal.\<close>

definition traversed :: "'s data_loader \<Rightarrow> 's data_loader" where
  "traversed data_loader = snd (iterate data_loader)"

subsection \<open>Predicted classes and counts\<close>

text \<open>
  The predicted class of a sample is the arg-max of its row of the probability output.
  The number of correct samples of a batch counts the positions where the predicted class
  is the true label.
\<close>

definition predicted_classes :: "('p, 'g, 's) module \<Rightarrow> 's list \<Rightarrow> nat list" where
  "predicted_classes model X =
     (case apply_model model X of Inl e \<Rightarrow> [] | Inr (logits, y_prob) \<Rightarrow> map argmax y_prob)"

definition correct_in_batch :: "('p, 'g, 's) module \<Rightarrow> 's batch \<Rightarrow> nat" where
  "correct_in_batch model b =
     length (filter (\<lambda>i. int (predicted_classes model (fst b) ! i) = snd b ! i)
               [0..<length (snd b)])"

definition num_correct :: "('p, 'g, 's) module \<Rightarrow> 's batch list \<Rightarrow> nat" where
  "num_correct model batches = sum_list (map (correct_in_batch model) batches)"

definition num_samples :: "'s batch list \<Rightarrow> nat" where
  "num_samples batches = sum_list (map (\<lambda>b. length (snd b)) batches)"

text \<open>
  The contract between a model and the batches it is given: the forward pass succeeds and
  returns one row of probabilities per label, and no row is empty.
\<close>

definition row_per_label :: "('p, 'g, 's) module \<Rightarrow> 's batch list \<Rightarrow> bool" where
  "row_per_label model batches =
     (\<forall>b \<in> set batches.
        case apply_model model (fst b) of
          Inl e \<Rightarrow> False
        | Inr (logits, y_prob) \<Rightarrow> length y_prob = length (snd b) \<and> [] \<notin> set y_prob)"

definition all_predictions_right :: "('p, 'g, 's) module \<Rightarrow> 's batch list \<Rightarrow> bool" where
  "all_predictions_right model batches =
     (\<forall>b \<in> set batches. \<forall>i < length (snd b).
        int (predicted_classes model (fst b) ! i) = snd b ! i)"

definition all_predictions_wrong :: "('p, 'g, 's) module \<Rightarrow> 's batch list \<Rightarrow> bool" where
  "all_predictions_wrong model batches =
     (\<forall>b \<in> set batches. \<forall>i < length (snd b).
        int (predicted_classes model (fst b) ! i) \<noteq> snd b ! i)"

fun counter_value :: "counter \<Rightarrow> nat" where
  "counter_value (PyInt i) = i"
| "counter_value (Tensor t) = t"

subsection \<open>Losses of an epoch\<close>

text \<open>
  The loss of a batch under a model; the model and optimizer that one training step on a
  batch leaves; the model and optimizer before the i-th batch of an epoch, that is after
  training steps on the batches before it, in order; the loss of the i-th batch at that
  point; and the sum of the batch losses, each multiplied by the size of its batch.
\<close>

definition batch_loss :: "criterion \<Rightarrow> ('p, 'g, 's) module \<Rightarrow> 's batch \<Rightarrow> error + real" where
  "batch_loss criterion model b =
     (case apply_model model (fst b) of
        Inl e \<Rightarrow> Inl e
      | Inr (y_hat, y_prob) \<Rightarrow> criterion y_hat (snd b))"

definition after_batch ::
  "('p, 'g :: plus, 's) autograd \<Rightarrow> criterion \<Rightarrow>
     ('p, 'g, 's) module \<times> ('p, 'g, 'o) optimizer \<Rightarrow> 's batch \<Rightarrow>
     ('p, 'g, 's) module \<times> ('p, 'g, 'o) optimizer" where
  "after_batch autograd criterion s b =
     step (snd s) (backward autograd criterion b (zero_grad (snd s) (fst s)))"

definition state_before ::
  "('p, 'g :: plus, 's) autograd \<Rightarrow> criterion \<Rightarrow> 's batch list \<Rightarrow>
     ('p, 'g, 's) module \<times> ('p, 'g, 'o) optimizer \<Rightarrow> nat \<Rightarrow>
     ('p, 'g, 's) module \<times> ('p, 'g, 'o) optimizer" where
  "state_before autograd criterion batches s i =
     foldl (after_batch autograd criterion) s (take i batches)"

definition loss_in_order ::
  "('p, 'g :: plus, 's) autograd \<Rightarrow> criterion \<Rightarrow> 's batch list \<Rightarrow>
     ('p, 'g, 's) module \<times> ('p, 'g, 'o) optimizer \<Rightarrow> nat \<Rightarrow> error + real" where
  "loss_in_order autograd criterion batches s i =
     batch_loss criterion (fst (state_before autograd criterion batches s i)) (batches ! i)"

definition weighted_sum :: "real list \<Rightarrow> 's batch list \<Rightarrow> real" where
  "weighted_sum losses batches =
     sum_list (map (\<lambda>(loss, b). loss * real (length (fst b))) (zip losses batches))"

subsection \<open>The loop\<close>

text \<open>The print-interval predicate of the loop, and the state in which the loop starts.\<close>

definition logs_on :: "int \<Rightarrow> nat \<Rightarrow> bool" where
  "logs_on print_every epoch = (int epoch mod print_every = print_every - 1)"

definition initial_run ::
  "('p, 'g, 's) module \<Rightarrow> ('p, 'g, 'o) optimizer \<Rightarrow> 's data_loader \<Rightarrow> 's data_loader \<Rightarrow>
     ('p, 'g, 's, 'o) run" where
  "initial_run model0 optimizer0 train_loader0 valid_loader0 =
     \<lparr>run_model = model0, run_optimizer = optimizer0, train_losses = [], valid_losses = [],
      run_train_loader = train_loader0, run_valid_loader = valid_loader0, console = [],
      shown = None\<rparr>"

subsection \<open>Shapes\<close>

definition is_image :: "nat \<Rightarrow> nat \<Rightarrow> nat \<Rightarrow> image \<Rightarrow> bool" where
  "is_image c h w img =
     (length img = c \<and> (\<forall>ch \<in> set img. length ch = h \<and> (\<forall>row \<in> set ch. length row = w)))"

definition has_shape4 :: "nat \<Rightarrow> nat \<Rightarrow> nat \<Rightarrow> nat \<Rightarrow> image list \<Rightarrow> bool" where
  "has_shape4 n c h w x = (length x = n \<and> (\<forall>img \<in> set x. is_image c h w img))"

definition has_shape2 :: "nat \<Rightarrow> nat \<Rightarrow> mat \<Rightarrow> bool" where
  "has_shape2 n c x = (length x = n \<and> (\<forall>row \<in> set x. length row = c))"

subsection \<open>Small concrete objects\<close>

text \<open>
  A model with one real parameter on samples that are numbers, a loss, a gradient, a
  gradient-descent optimizer and loaders, small enough to run every routine by
  simplification; and an image of zeros.
\<close>

definition toy_net :: "(real, real, nat) module" where
  "toy_net =
     \<lparr>forward = (\<lambda>p t X. Inr (map (\<lambda>x. [p, real x]) X,
                               map (\<lambda>x. if x = 0 then [3, 1] else [1, 3]) X)),
      parameters = 0, grad = None, training = True\<rparr>"

definition toy_criterion :: criterion where
  "toy_criterion y_hat y_true = Inr (sum_list (map sum_list y_hat))"

definition toy_autograd :: "(real, real, nat) autograd" where
  "toy_autograd model criterion b = 1"

definition toy_sgd :: "(real, real, nat) optimizer" where
  "toy_sgd = \<lparr>opt_state = 0,
              update = (\<lambda>st p g. (Suc st, p - (case g of None \<Rightarrow> 0 | Some d \<Rightarrow> d)))\<rparr>"

definition toy_loader :: "nat batch list \<Rightarrow> nat data_loader" where
  "toy_loader batches =
     \<lparr>dataset_len = sum_list (map (\<lambda>b. length (snd b)) batches),
      traversals = (\<lambda>k. batches), cursor = 0\<rparr>"

definition mixed_batches :: "nat batch list" where
  "mixed_batches = [([0, 1], [0, 1]), ([1], [0])]"

definition right_batches :: "nat batch list" where
  "right_batches = [([0, 1], [0, 1]), ([1], [1])]"

definition wrong_batches :: "nat batch list" where
  "wrong_batches = [([0, 1], [1, 0]), ([1], [7])]"

definition shuffled_loader :: "nat data_loader" where
  "shuffled_loader =
     \<lparr>dataset_len = 3,
      traversals = (\<lambda>k. if even k then [([0, 1], [0, 1]), ([1], [0])]
                         else [([1], [0]), ([0, 1], [0, 1])]),
      cursor = 0\<rparr>"

definition zero_image :: image where
  "zero_image = [replicate 32 (replicate 32 0)]"

section \<open>The accuracy metric\<close>

subsection \<open>The arg-max\<close>

text \<open>
  \<open>argmax\<close> returns an index of the row, the entry there is a maximum of the row, and
  it is the first such index.
\<close>

lemma argmax_from_first_maximum:
  assumes "length ys = i" "bi < i" "ys ! bi = bv"
    and "\<forall>j < i. ys ! j \<le> bv" "\<forall>j < bi. ys ! j < bv"
  shows "argmax_from bi bv i xs < length (ys @ xs)
       \<and> (\<forall>j < length (ys @ xs). (ys @ xs) ! j \<le> (ys @ xs) ! argmax_from bi bv i xs)
       \<and> (\<forall>j < argmax_from bi bv i xs. (ys @ xs) ! j < (ys @ xs) ! argmax_from bi bv i xs)"
  using assms
proof (induction xs arbitrary: ys i bi bv)
  case Nil
  then show ?case by simp
next
  case (Cons x xs)
  show ?case
  proof (cases "bv < x")
    case True
    have "argmax_from i x (Suc i) xs < length ((ys @ [x]) @ xs)
        \<and> (\<forall>j < length ((ys @ [x]) @ xs).
              ((ys @ [x]) @ xs) ! j \<le> ((ys @ [x]) @ xs) ! argmax_from i x (Suc i) xs)
        \<and> (\<forall>j < argmax_from i x (Suc i) xs.
              ((ys @ [x]) @ xs) ! j < ((ys @ [x]) @ xs) ! argmax_from i x (Suc i) xs)"
    proof (rule Cons.IH)
      show "length (ys @ [x]) = Suc i" using Cons.prems by simp
      show "i < Suc i" by simp
      show "(ys @ [x]) ! i = x" using Cons.prems(1) [symmetric] by simp
      show "\<forall>j < Suc i. (ys @ [x]) ! j \<le> x"
        using Cons.prems True by (auto simp: nth_append less_Suc_eq intro: less_imp_le order_trans)
      show "\<forall>j < i. (ys @ [x]) ! j < x"
        using Cons.prems True by (auto simp: nth_append intro: le_less_trans)
    qed
    with True show ?thesis by simp
  next
    case False
    have "argmax_from bi bv (Suc i) xs < length ((ys @ [x]) @ xs)
        \<and> (\<forall>j < length ((ys @ [x]) @ xs).
              ((ys @ [x]) @ xs) ! j \<le> ((ys @ [x]) @ xs) ! argmax_from bi bv (Suc i) xs)
        \<and> (\<forall>j < argmax_from bi bv (Suc i) xs.
              ((ys @ [x]) @ xs) ! j < ((ys @ [x]) @ xs) ! argmax_from bi bv (Suc i) xs)"
    proof (rule Cons.IH)
      show "length (ys @ [x]) = Suc i" using Cons.prems by simp
      show "bi < Suc i" using Cons.prems by simp
      show "(ys @ [x]) ! bi = bv" using Cons.prems by (simp add: nth_append)
      show "\<forall>j < Suc i. (ys @ [x]) ! j \<le> bv"
        using Cons.prems False by (auto simp: nth_append less_Suc_eq)
      show "\<forall>j < bi. (ys @ [x]) ! j < bv"
        using Cons.prems by (auto simp: nth_append)
    qed
    with False show ?thesis by simp
  qed
qed

lemma argmax_first_maximum:
  assumes "row \<noteq> []"
  shows "argmax row < length row
       \<and> (\<forall>j < length row. row ! j \<le> row ! argmax row)
       \<and> (\<forall>j < argmax row. row ! j < row ! argmax row)"
proof -
  from assms obtain x xs where row: "row = x # xs" by (cases row) auto
  have "argmax_from 0 x 1 xs < length ([x] @ xs)
      \<and> (\<forall>j < length ([x] @ xs). ([x] @ xs) ! j \<le> ([x] @ xs) ! argmax_from 0 x 1 xs)
      \<and> (\<forall>j < argmax_from 0 x 1 xs. ([x] @ xs) ! j < ([x] @ xs) ! argmax_from 0 x 1 xs)"
    by (rule argmax_from_first_maximum) simp_all
  then show ?thesis by (simp add: row argmax_def)
qed

lemma argmax_from_strict_mono:
  assumes "\<And>a b. a < b \<longleftrightarrow> f a < f b"
  shows "argmax_from bi (f bv) i (map f xs) = argmax_from bi bv i xs"
  using assms by (induction xs arbitrary: bi bv i) auto

lemma argmax_strict_mono:
  assumes "\<And>a b. a < b \<longleftrightarrow> f a < f b"
  shows "argmax (map f row) = argmax row"
  by (cases row) (simp_all add: argmax_def argmax_from_strict_mono [OF assms])

subsection \<open>The loop over the batches\<close>

lemma next_batches_eq: "next_batches dl = traversals dl (cursor dl)"
  by (simp add: next_batches_def iterate_def)

lemma traversed_eq: "traversed dl = dl\<lparr>cursor := Suc (cursor dl)\<rparr>"
  by (simp add: traversed_def iterate_def)

lemma iterate_eq: "iterate dl = (next_batches dl, traversed dl)"
  by (simp add: next_batches_def traversed_def)

lemma zip_filter_count:
  "length ps = length ys \<Longrightarrow>
     length (filter (\<lambda>(p, y). P p y) (zip ps ys))
       = length (filter (\<lambda>i. P (ps ! i) (ys ! i)) [0..<length ys])"
proof -
  assume len: "length ps = length ys"
  have z: "zip ps ys = map (\<lambda>i. (ps ! i, ys ! i)) [0..<length ys]"
    using len by (intro nth_equalityI) simp_all
  show ?thesis
    by (subst z) (simp add: filter_map comp_def)
qed

lemma eq_sum_same_length:
  "length ps = length ys \<Longrightarrow>
     eq_sum ps ys = Inr (length (filter (\<lambda>i. int (ps ! i) = ys ! i) [0..<length ys]))"
  using zip_filter_count [of ps ys "\<lambda>p y. int p = y"] by (simp add: eq_sum_def)

lemma batch_step:
  assumes "apply_model model X = Inr (logits, y_prob)"
    and "length y_prob = length y_true" and "[] \<notin> set y_prob"
  shows "accuracy_batches model ((X, y_true) # rest) (correct_pred, n)
       = accuracy_batches model rest
           (counter_add correct_pred (correct_in_batch model (X, y_true)), n + length y_true)"
proof -
  have "eq_sum (map argmax y_prob) y_true = Inr (correct_in_batch model (X, y_true))"
    using assms by (simp add: eq_sum_same_length correct_in_batch_def predicted_classes_def)
  then show ?thesis using assms by (simp add: torch_max_dim1_def)
qed

lemma accuracy_batches_counts:
  "row_per_label model batches \<Longrightarrow>
     accuracy_batches model batches (correct_pred, n)
       = Inr (if batches = [] then correct_pred
              else Tensor (counter_value correct_pred + num_correct model batches),
              n + num_samples batches)"
proof (induction batches arbitrary: correct_pred n)
  case Nil
  then show ?case by (simp add: num_samples_def)
next
  case (Cons b rest)
  obtain X y_true where b: "b = (X, y_true)" by (cases b)
  from Cons.prems obtain logits y_prob where
    ap: "apply_model model X = Inr (logits, y_prob)"
    and len: "length y_prob = length y_true" and ne: "[] \<notin> set y_prob"
    by (auto simp: row_per_label_def b split: sum.splits)
  have rest: "row_per_label model rest"
    using Cons.prems by (simp add: row_per_label_def)
  have cv: "counter_value (counter_add correct_pred c) = counter_value correct_pred + c" for c
    by (cases correct_pred) simp_all
  have ca: "counter_add correct_pred c = Tensor (counter_value correct_pred + c)" for c
    by (cases correct_pred) simp_all
  show ?case
    unfolding b batch_step [OF ap len ne] Cons.IH [OF rest]
    by (simp add: cv ca num_correct_def num_samples_def)
qed

lemma num_correct_le:
  "num_correct model batches \<le> num_samples batches"
proof (induction batches)
  case Nil
  then show ?case by (simp add: num_correct_def num_samples_def)
next
  case (Cons b rest)
  have "correct_in_batch model b \<le> length (snd b)"
    unfolding correct_in_batch_def
    by (metis length_filter_le length_upt minus_nat.diff_0)
  with Cons show ?case by (simp add: num_correct_def num_samples_def)
qed

lemma get_accuracy_counts:
  assumes ne: "next_batches data_loader \<noteq> []"
    and rows: "row_per_label (eval_mode model) (next_batches data_loader)"
  shows "get_accuracy model data_loader
       = Inr (true_divide (num_correct (eval_mode model) (next_batches data_loader))
                          (num_samples (next_batches data_loader)),
              eval_mode model, traversed data_loader)"
  using ne
  by (simp add: get_accuracy_def iterate_eq Let_def accuracy_batches_counts [OF rows])

lemma all_right_count:
  "all_predictions_right model batches \<Longrightarrow> num_correct model batches = num_samples batches"
proof (induction batches)
  case Nil
  then show ?case by (simp add: num_correct_def num_samples_def)
next
  case (Cons b rest)
  have "filter (\<lambda>i. int (predicted_classes model (fst b) ! i) = snd b ! i) [0..<length (snd b)]
      = [0..<length (snd b)]"
    using Cons.prems by (intro filter_True) (simp add: all_predictions_right_def)
  then have "correct_in_batch model b = length (snd b)"
    by (simp add: correct_in_batch_def)
  moreover have "num_correct model rest = num_samples rest"
    using Cons by (simp add: all_predictions_right_def)
  ultimately show ?case by (simp add: num_correct_def num_samples_def)
qed

lemma all_wrong_count:
  "all_predictions_wrong model batches \<Longrightarrow> num_correct model batches = 0"
proof (induction batches)
  case Nil
  then show ?case by (simp add: num_correct_def)
next
  case (Cons b rest)
  have "filter (\<lambda>i. int (predicted_classes model (fst b) ! i) = snd b ! i) [0..<length (snd b)]
      = []"
    using Cons.prems by (intro filter_False) (simp add: all_predictions_wrong_def)
  then have "correct_in_batch model b = 0"
    by (simp add: correct_in_batch_def)
  moreover have "num_correct model rest = 0"
    using Cons by (simp add: all_predictions_wrong_def)
  ultimately show ?case by (simp add: num_correct_def)
qed

lemma toy_predicted:
  "predicted_classes (eval_mode toy_net) X = map (\<lambda>x. if x = 0 then 0 else 1) X"
  by (simp add: predicted_classes_def apply_model_def toy_net_def eval_mode_def argmax_def
      comp_def)

lemma toy_next_batches: "next_batches (toy_loader bs) = bs"
  by (simp add: next_batches_eq toy_loader_def)

lemma toy_rows:
  "\<forall>b \<in> set bs. length (fst b) = length (snd b) \<Longrightarrow> row_per_label (eval_mode toy_net) bs"
  by (auto simp: row_per_label_def toy_net_def eval_mode_def apply_model_def)

subsection \<open>What get_accuracy returns\<close>

text \<open>
  C10: on a data loader whose traversal yields no batch, get_accuracy returns no value.
  The loop body never runs, so the sample count stays 0 and correct_pred stays the Python
  integer 0; the final expression correct_pred.float() / n then raises instead of
  producing an accuracy.
\<close>

theorem get_accuracy_empty_fails:
  "next_batches data_loader = [] \<Longrightarrow>
     accuracy_batches (eval_mode model) (next_batches data_loader) (PyInt 0, 0)
       = Inr (PyInt 0, 0)
     \<and> get_accuracy model data_loader = Inl AttributeError"
proof -
  assume empty: "next_batches data_loader = []"
  have loop: "accuracy_batches (eval_mode model) (next_batches data_loader) (PyInt 0, 0)
      = Inr (PyInt 0, 0)"
    unfolding empty by simp
  have "get_accuracy model data_loader
      = (case accuracy_batches (eval_mode model) (next_batches data_loader) (PyInt 0, 0) of
           Inl e \<Rightarrow> Inl e
         | Inr (correct_pred, n) \<Rightarrow>
             (case correct_pred of
                PyInt i \<Rightarrow> Inl AttributeError
              | Tensor c \<Rightarrow> Inr (true_divide c n, eval_mode model, traversed data_loader)))"
    by (simp add: get_accuracy_def iterate_eq Let_def)
  also have "\<dots> = Inl AttributeError"
    unfolding loop by simp
  finally show ?thesis using loop by simp
qed

theorem get_accuracy_empty_fails_witness:
  "next_batches (toy_loader []) = []
   \<and> accuracy_batches (eval_mode toy_net) (next_batches (toy_loader [])) (PyInt 0, 0)
       = Inr (PyInt 0, 0)
   \<and> get_accuracy toy_net (toy_loader []) = Inl AttributeError"
  using get_accuracy_empty_fails [of "toy_loader []" toy_net]
  by (simp add: toy_next_batches)

text \<open>
  C2, as the code has it: for every model that returns one row of probabilities per
  label, and every data loader whose traversal yields at least one batch, get_accuracy
  returns the number of samples whose predicted class (the arg-max of the sample's row of
  probabilities) is the true label, divided by the number of samples of the traversal:
  the quotient when there is at least one sample. It leaves the model in evaluation mode
  and the loader traversed once.
\<close>

theorem get_accuracy_fraction:
  "next_batches data_loader \<noteq> [] \<Longrightarrow>
   row_per_label (eval_mode model) (next_batches data_loader) \<Longrightarrow>
     get_accuracy model data_loader
       = Inr (true_divide (num_correct (eval_mode model) (next_batches data_loader))
                          (num_samples (next_batches data_loader)),
              eval_mode model, traversed data_loader)
     \<and> (0 < num_samples (next_batches data_loader) \<longrightarrow>
          true_divide (num_correct (eval_mode model) (next_batches data_loader))
                      (num_samples (next_batches data_loader))
          = Fin (real (num_correct (eval_mode model) (next_batches data_loader))
                 / real (num_samples (next_batches data_loader))))"
proof -
  let ?bs = "next_batches data_loader"
  assume ne: "?bs \<noteq> []" and rows: "row_per_label (eval_mode model) ?bs"
  have loop: "accuracy_batches (eval_mode model) ?bs (PyInt 0, 0)
      = Inr (Tensor (num_correct (eval_mode model) ?bs), num_samples ?bs)"
    using ne by (simp add: accuracy_batches_counts [OF rows])
  have ret: "get_accuracy model data_loader
      = Inr (true_divide (num_correct (eval_mode model) ?bs) (num_samples ?bs),
             eval_mode model, traversed data_loader)"
    by (simp add: get_accuracy_def iterate_eq Let_def loop)
  have quot: "true_divide c n = Fin (real c / real n)" if "0 < n" for c n
    using that by (simp add: true_divide_def)
  from ret quot show ?thesis by blast
qed

theorem get_accuracy_fraction_witness:
  "next_batches (toy_loader mixed_batches) \<noteq> []
   \<and> row_per_label (eval_mode toy_net) (next_batches (toy_loader mixed_batches))
   \<and> 0 < num_samples (next_batches (toy_loader mixed_batches))
   \<and> num_correct (eval_mode toy_net) (next_batches (toy_loader mixed_batches)) = 2
   \<and> num_samples (next_batches (toy_loader mixed_batches)) = 3
   \<and> get_accuracy toy_net (toy_loader mixed_batches)
       = Inr (Fin (2 / 3), eval_mode toy_net, traversed (toy_loader mixed_batches))"
proof -
  let ?bs = "next_batches (toy_loader mixed_batches)"
  have h1: "?bs \<noteq> []"
    by (simp add: toy_next_batches mixed_batches_def)
  have h2: "row_per_label (eval_mode toy_net) ?bs"
    by (simp add: toy_next_batches toy_rows mixed_batches_def)
  have c: "num_correct (eval_mode toy_net) ?bs = 2"
    by (simp add: toy_next_batches num_correct_def correct_in_batch_def toy_predicted
        mixed_batches_def upt_rec)
  have n: "num_samples ?bs = 3"
    by (simp add: toy_next_batches num_samples_def mixed_batches_def)
  from get_accuracy_fraction [OF h1 h2]
  have "get_accuracy toy_net (toy_loader mixed_batches)
      = Inr (Fin (2 / 3), eval_mode toy_net, traversed (toy_loader mixed_batches))"
    by (simp add: c n)
  with h1 h2 c n show ?thesis by simp
qed

text \<open>
  The first premise cannot be dropped: on the loader that yields no batch the call returns
  no quotient, it raises.
\<close>

theorem get_accuracy_fraction_counterexample:
  "next_batches (toy_loader []) = []
   \<and> get_accuracy toy_net (toy_loader []) = Inl AttributeError
   \<and> get_accuracy toy_net (toy_loader [])
     \<noteq> Inr (true_divide (num_correct (eval_mode toy_net) (next_batches (toy_loader [])))
                        (num_samples (next_batches (toy_loader []))),
            eval_mode toy_net, traversed (toy_loader []))"
  by (simp add: get_accuracy_def iterate_eq toy_next_batches)

text \<open>
  C3, as the code has it: for every data loader whose traversal yields at least one
  sample, and every model that returns one row of probabilities per label, get_accuracy
  returns a number between 0 and 1; it is exactly 1 when the predicted class of every
  sample is its true label, and exactly 0 when the predicted class of every sample
  differs from its true label.
\<close>

theorem get_accuracy_range:
  assumes pos: "0 < num_samples (next_batches data_loader)"
    and rows: "row_per_label (eval_mode model) (next_batches data_loader)"
  shows "\<exists>a. get_accuracy model data_loader
              = Inr (Fin a, eval_mode model, traversed data_loader)
           \<and> 0 \<le> a \<and> a \<le> 1
           \<and> (all_predictions_right (eval_mode model) (next_batches data_loader) \<longrightarrow> a = 1)
           \<and> (all_predictions_wrong (eval_mode model) (next_batches data_loader) \<longrightarrow> a = 0)"
proof -
  let ?bs = "next_batches data_loader"
  let ?c = "num_correct (eval_mode model) ?bs"
  let ?n = "num_samples ?bs"
  have ne: "?bs \<noteq> []" using pos by (auto simp: num_samples_def)
  have le: "?c \<le> ?n" by (rule num_correct_le)
  have acc: "get_accuracy model data_loader
       = Inr (Fin (real ?c / real ?n), eval_mode model, traversed data_loader)"
    using pos by (simp add: get_accuracy_counts [OF ne rows] true_divide_def)
  have lo: "0 \<le> real ?c / real ?n" by simp
  have hi: "real ?c / real ?n \<le> 1" using pos le by simp
  have one: "real ?c / real ?n = 1" if "all_predictions_right (eval_mode model) ?bs"
    using all_right_count [OF that] pos by simp
  have zero: "real ?c / real ?n = 0" if "all_predictions_wrong (eval_mode model) ?bs"
    using all_wrong_count [OF that] by simp
  from acc lo hi one zero show ?thesis by blast
qed

theorem get_accuracy_range_witness:
  "0 < num_samples (next_batches (toy_loader right_batches))
   \<and> row_per_label (eval_mode toy_net) (next_batches (toy_loader right_batches))
   \<and> all_predictions_right (eval_mode toy_net) (next_batches (toy_loader right_batches))
   \<and> get_accuracy toy_net (toy_loader right_batches)
       = Inr (Fin 1, eval_mode toy_net, traversed (toy_loader right_batches))
   \<and> 0 < num_samples (next_batches (toy_loader wrong_batches))
   \<and> row_per_label (eval_mode toy_net) (next_batches (toy_loader wrong_batches))
   \<and> all_predictions_wrong (eval_mode toy_net) (next_batches (toy_loader wrong_batches))
   \<and> get_accuracy toy_net (toy_loader wrong_batches)
       = Inr (Fin 0, eval_mode toy_net, traversed (toy_loader wrong_batches))"
proof -
  let ?r = "next_batches (toy_loader right_batches)"
  let ?w = "next_batches (toy_loader wrong_batches)"
  have r1: "0 < num_samples ?r"
    by (simp add: toy_next_batches right_batches_def num_samples_def)
  have r2: "row_per_label (eval_mode toy_net) ?r"
    by (simp add: toy_next_batches toy_rows right_batches_def)
  have r3: "all_predictions_right (eval_mode toy_net) ?r"
    by (simp add: toy_next_batches right_batches_def all_predictions_right_def toy_predicted
        less_Suc_eq)
  have w1: "0 < num_samples ?w"
    by (simp add: toy_next_batches wrong_batches_def num_samples_def)
  have w2: "row_per_label (eval_mode toy_net) ?w"
    by (simp add: toy_next_batches toy_rows wrong_batches_def)
  have w3: "all_predictions_wrong (eval_mode toy_net) ?w"
    by (simp add: toy_next_batches wrong_batches_def all_predictions_wrong_def toy_predicted
        less_Suc_eq)
  from get_accuracy_range [OF r1 r2] r3
  have ra: "get_accuracy toy_net (toy_loader right_batches)
      = Inr (Fin 1, eval_mode toy_net, traversed (toy_loader right_batches))"
    by auto
  from get_accuracy_range [OF w1 w2] w3
  have wa: "get_accuracy toy_net (toy_loader wrong_batches)
      = Inr (Fin 0, eval_mode toy_net, traversed (toy_loader wrong_batches))"
    by auto
  from r1 r2 r3 ra w1 w2 w3 wa show ?thesis by blast
qed

text \<open>
  Neither premise can be dropped. A traversal that yields a batch but no sample makes
  the division of the two zero counts NaN. A batch with three samples and one label makes
  the comparison broadcast the label: three predictions count as correct for one sample,
  and the quotient is 3.
\<close>

theorem get_accuracy_range_counterexample:
  "next_batches (toy_loader [([], [])]) \<noteq> []
   \<and> get_accuracy toy_net (toy_loader [([], [])])
       = Inr (NaN, eval_mode toy_net, traversed (toy_loader [([], [])]))
   \<and> next_batches (toy_loader [([0, 0, 0], [0])]) \<noteq> []
   \<and> get_accuracy toy_net (toy_loader [([0, 0, 0], [0])])
       = Inr (Fin 3, eval_mode toy_net, traversed (toy_loader [([0, 0, 0], [0])]))"
  by (simp add: get_accuracy_def iterate_eq toy_next_batches toy_net_def eval_mode_def
      apply_model_def torch_max_dim1_def argmax_def eq_sum_def true_divide_def)

section \<open>The epoch routines\<close>

lemma apply_model_zero_grad: "apply_model (zero_grad opt m) X = apply_model m X"
  by (simp add: apply_model_def zero_grad_def)

lemma train_batches_step:
  assumes "batch_loss c m (X, y) = Inr l"
  shows "train_batches autograd c ((X, y) # rest) (m, opt, r)
       = train_batches autograd c rest
           (fst (after_batch autograd c (m, opt) (X, y)),
            snd (after_batch autograd c (m, opt) (X, y)), r + l * real (length X))"
  using assms
  by (auto simp: batch_loss_def after_batch_def apply_model_zero_grad Let_def
      split: sum.splits prod.splits)

lemma train_batches_sum:
  "length ls = length bs \<Longrightarrow>
   \<forall>i < length bs. loss_in_order autograd c bs (m, opt) i = Inr (ls ! i) \<Longrightarrow>
     train_batches autograd c bs (m, opt, r)
       = Inr (fst (state_before autograd c bs (m, opt) (length bs)),
              snd (state_before autograd c bs (m, opt) (length bs)),
              r + weighted_sum ls bs)"
proof (induction bs arbitrary: ls m opt r)
  case Nil
  then show ?case by (simp add: state_before_def weighted_sum_def)
next
  case (Cons b bs)
  obtain X y where b: "b = (X, y)" by (cases b)
  from Cons.prems(1) obtain l ls' where ls: "ls = l # ls'" and len: "length ls' = length bs"
    by (cases ls) auto
  let ?s = "after_batch autograd c (m, opt) b"
  have shift: "state_before autograd c (b # bs) (m, opt) (Suc i)
      = state_before autograd c bs ?s i" for i
    by (simp add: state_before_def)
  have first: "batch_loss c m (X, y) = Inr l"
    using Cons.prems(2) [rule_format, of 0] by (simp add: loss_in_order_def state_before_def b ls)
  have later: "\<forall>i < length bs. loss_in_order autograd c bs (fst ?s, snd ?s) i = Inr (ls' ! i)"
  proof (intro allI impI)
    fix i assume "i < length bs"
    then have "loss_in_order autograd c (b # bs) (m, opt) (Suc i) = Inr (ls ! Suc i)"
      using Cons.prems(2) by simp
    then show "loss_in_order autograd c bs (fst ?s, snd ?s) i = Inr (ls' ! i)"
      by (simp add: loss_in_order_def shift ls)
  qed
  have "train_batches autograd c (b # bs) (m, opt, r)
      = train_batches autograd c bs (fst ?s, snd ?s, r + l * real (length X))"
    unfolding b by (rule train_batches_step [OF first])
  also have "\<dots> = Inr (fst (state_before autograd c bs (fst ?s, snd ?s) (length bs)),
                         snd (state_before autograd c bs (fst ?s, snd ?s) (length bs)),
                         r + l * real (length X) + weighted_sum ls' bs)"
    by (rule Cons.IH [OF len later])
  finally show ?case
    using shift [of "length bs"] by (simp add: weighted_sum_def ls b)
qed

lemma validate_batches_sum:
  "length ls = length bs \<Longrightarrow>
   \<forall>i < length bs. batch_loss c m (bs ! i) = Inr (ls ! i) \<Longrightarrow>
     validate_batches c bs (m, r) = Inr (m, r + weighted_sum ls bs)"
proof (induction bs arbitrary: ls r)
  case Nil
  then show ?case by (simp add: weighted_sum_def)
next
  case (Cons b bs)
  obtain X y where b: "b = (X, y)" by (cases b)
  from Cons.prems(1) obtain l ls' where ls: "ls = l # ls'" and len: "length ls' = length bs"
    by (cases ls) auto
  have first: "batch_loss c m (X, y) = Inr l"
    using Cons.prems(2) [rule_format, of 0] by (simp add: b ls)
  have later: "\<forall>i < length bs. batch_loss c m (bs ! i) = Inr (ls' ! i)"
    using Cons.prems(2) ls by fastforce
  have "validate_batches c (b # bs) (m, r) = validate_batches c bs (m, r + l * real (length X))"
    using first by (auto simp: b batch_loss_def split: sum.splits)
  also have "\<dots> = Inr (m, r + l * real (length X) + weighted_sum ls' bs)"
    by (rule Cons.IH [OF len later])
  finally show ?case by (simp add: weighted_sum_def ls b)
qed

lemma validate_batches_model:
  "validate_batches c bs (m, r) = Inr (m', r') \<Longrightarrow> m' = m"
  by (induction bs arbitrary: r) (auto split: sum.splits)

text \<open>The model object that a call of validate leaves differs from the old one in the
  training flag only, whether the call returns or raises.\<close>

lemma validate_model:
  "fst (validate valid_loader model criterion) = model\<lparr>training := False\<rparr>"
proof -
  let ?r = "validate_batches criterion (next_batches valid_loader) (eval_mode model, 0)"
  show ?thesis
  proof (cases ?r)
    case (Inl e)
    then show ?thesis
      by (simp add: validate_def iterate_eq Let_def eval_mode_def)
  next
    case (Inr st)
    obtain m' r' where st: "st = (m', r')" by (cases st)
    from Inr st have "m' = eval_mode model" by (auto dest: validate_batches_model)
    with Inr st show ?thesis
      by (simp add: validate_def iterate_eq Let_def eval_mode_def)
  qed
qed

lemmas toy_defs =
  toy_net_def toy_criterion_def toy_autograd_def toy_sgd_def toy_loader_def
  mixed_batches_def shuffled_loader_def

lemmas routine_defs =
  train_def validate_def get_accuracy_def iterate_def apply_model_def train_mode_def
  eval_mode_def zero_grad_def backward_def step_def torch_max_dim1_def argmax_def eq_sum_def
  true_divide_def Let_def

lemma toy_traversed: "traversed (toy_loader bs) = (toy_loader bs)\<lparr>cursor := 1\<rparr>"
  by (simp add: traversed_eq toy_loader_def)

text \<open>
  C4, as the code has it: for every data loader whose dataset has at least one sample,
  one call to train processes the batches in the order of the traversal, each batch with
  the parameters that the optimizer steps on the batches before it have left. When
  the forward pass and the loss succeed on every batch, the call returns the model and the
  optimizer after the last step, and as epoch loss the sum of the batch losses, each
  multiplied by the size of its batch, divided by the length of the loader's dataset.
\<close>

theorem train_epoch_loss:
  assumes n: "0 < dataset_len train_loader"
    and len: "length losses = length (next_batches train_loader)"
    and losses: "\<forall>i < length (next_batches train_loader).
        loss_in_order autograd criterion (next_batches train_loader)
          (train_mode model, optimizer) i = Inr (losses ! i)"
  shows "train autograd train_loader model criterion optimizer
       = Inr (fst (state_before autograd criterion (next_batches train_loader)
                     (train_mode model, optimizer) (length (next_batches train_loader))),
              snd (state_before autograd criterion (next_batches train_loader)
                     (train_mode model, optimizer) (length (next_batches train_loader))),
              weighted_sum losses (next_batches train_loader) / real (dataset_len train_loader),
              traversed train_loader)"
  using n by (simp add: train_def iterate_eq train_batches_sum [OF len losses])

theorem train_epoch_loss_witness:
  "0 < dataset_len (toy_loader mixed_batches)
   \<and> length [1, 0 :: real] = length (next_batches (toy_loader mixed_batches))
   \<and> loss_in_order toy_autograd toy_criterion (next_batches (toy_loader mixed_batches))
         (train_mode toy_net, toy_sgd) 0 = Inr 1
   \<and> loss_in_order toy_autograd toy_criterion (next_batches (toy_loader mixed_batches))
         (train_mode toy_net, toy_sgd) 1 = Inr 0
   \<and> train toy_autograd (toy_loader mixed_batches) toy_net toy_criterion toy_sgd
       = Inr (toy_net\<lparr>parameters := - 2, grad := Some 1\<rparr>, toy_sgd\<lparr>opt_state := 2\<rparr>, 2 / 3,
              traversed (toy_loader mixed_batches))"
proof -
  let ?dl = "toy_loader mixed_batches"
  let ?bs = "next_batches ?dl"
  have bs: "?bs = [([0, 1], [0, 1]), ([1], [0])]"
    by (simp add: toy_next_batches mixed_batches_def)
  have n: "0 < dataset_len ?dl" by (simp add: toy_defs)
  have len: "length [1, 0 :: real] = length ?bs" by (simp add: bs)
  have l0: "loss_in_order toy_autograd toy_criterion ?bs (train_mode toy_net, toy_sgd) 0 = Inr 1"
    unfolding bs
    by (simp add: loss_in_order_def state_before_def batch_loss_def toy_defs routine_defs)
  have l1: "loss_in_order toy_autograd toy_criterion ?bs (train_mode toy_net, toy_sgd) 1 = Inr 0"
    unfolding bs
    by (simp add: loss_in_order_def state_before_def batch_loss_def after_batch_def
        toy_defs routine_defs)
  have all: "\<forall>i < length ?bs.
      loss_in_order toy_autograd toy_criterion ?bs (train_mode toy_net, toy_sgd) i
        = Inr ([1, 0] ! i)"
    using l0 l1 by (simp add: bs less_Suc_eq)
  have st: "state_before toy_autograd toy_criterion ?bs (train_mode toy_net, toy_sgd) (length ?bs)
      = (toy_net\<lparr>parameters := - 2, grad := Some 1\<rparr>, toy_sgd\<lparr>opt_state := 2\<rparr>)"
    unfolding bs by (simp add: state_before_def after_batch_def toy_defs routine_defs)
  have ws: "weighted_sum [1, 0] ?bs = 2" by (simp add: bs weighted_sum_def)
  have d: "dataset_len ?dl = 3" by (simp add: toy_defs)
  from train_epoch_loss [OF n len all]
  have "train toy_autograd ?dl toy_net toy_criterion toy_sgd
      = Inr (toy_net\<lparr>parameters := - 2, grad := Some 1\<rparr>, toy_sgd\<lparr>opt_state := 2\<rparr>, 2 / 3,
             traversed ?dl)"
    by (simp add: st ws d)
  with n len l0 l1 show ?thesis by blast
qed

text \<open>
  The premise on the dataset cannot be dropped: on the loader of an empty dataset the
  call returns no epoch loss, the division raises.
\<close>

theorem train_epoch_loss_counterexample:
  "next_batches (toy_loader []) = []
   \<and> dataset_len (toy_loader []) = 0
   \<and> train toy_autograd (toy_loader []) toy_net toy_criterion toy_sgd = Inl ZeroDivisionError"
  by (simp add: toy_next_batches) (simp add: toy_defs routine_defs)

text \<open>
  C5, as the code has it: for every data loader, model and loss function, one call to
  validate leaves every parameter of the model, and the gradient stored on it, as they
  were before the call, whether the call returns or raises: the routine computes no
  gradient and takes no optimizer step, only the training flag is cleared. For every data
  loader whose dataset has at least one sample, when the forward pass and the loss
  succeed on every batch, the call returns the mean validation loss accumulated as in
  train: the sum of the batch losses, each multiplied by the size of its batch, divided
  by the length of the loader's dataset.
\<close>

theorem validate_frame:
  "fst (validate valid_loader model criterion) = model\<lparr>training := False\<rparr>
   \<and> parameters (fst (validate valid_loader model criterion)) = parameters model
   \<and> grad (fst (validate valid_loader model criterion)) = grad model
   \<and> forward (fst (validate valid_loader model criterion)) = forward model
   \<and> (0 < dataset_len valid_loader
        \<and> length losses = length (next_batches valid_loader)
        \<and> (\<forall>i < length (next_batches valid_loader).
              batch_loss criterion (eval_mode model) (next_batches valid_loader ! i)
                = Inr (losses ! i)) \<longrightarrow>
          snd (validate valid_loader model criterion)
            = Inr (weighted_sum losses (next_batches valid_loader)
                     / real (dataset_len valid_loader),
                   traversed valid_loader))"
proof -
  have frame: "fst (validate valid_loader model criterion) = model\<lparr>training := False\<rparr>"
    by (rule validate_model)
  have mean: "snd (validate valid_loader model criterion)
      = Inr (weighted_sum losses (next_batches valid_loader) / real (dataset_len valid_loader),
             traversed valid_loader)"
    if n: "0 < dataset_len valid_loader"
      and len: "length losses = length (next_batches valid_loader)"
      and losses: "\<forall>i < length (next_batches valid_loader).
          batch_loss criterion (eval_mode model) (next_batches valid_loader ! i)
            = Inr (losses ! i)"
    using n by (simp add: validate_def iterate_eq Let_def validate_batches_sum [OF len losses])
  from frame mean show ?thesis by simp
qed

theorem validate_frame_witness:
  "0 < dataset_len (toy_loader mixed_batches)
   \<and> length [1, 1 :: real] = length (next_batches (toy_loader mixed_batches))
   \<and> batch_loss toy_criterion (eval_mode toy_net) (next_batches (toy_loader mixed_batches) ! 0)
       = Inr 1
   \<and> batch_loss toy_criterion (eval_mode toy_net) (next_batches (toy_loader mixed_batches) ! 1)
       = Inr 1
   \<and> validate (toy_loader mixed_batches) toy_net toy_criterion
       = (toy_net\<lparr>training := False\<rparr>, Inr (1, traversed (toy_loader mixed_batches)))"
proof -
  let ?dl = "toy_loader mixed_batches"
  let ?bs = "next_batches ?dl"
  have bs: "?bs = [([0, 1], [0, 1]), ([1], [0])]"
    by (simp add: toy_next_batches mixed_batches_def)
  have n: "0 < dataset_len ?dl" by (simp add: toy_defs)
  have len: "length [1, 1 :: real] = length ?bs" by (simp add: bs)
  have l0: "batch_loss toy_criterion (eval_mode toy_net) (?bs ! 0) = Inr 1"
    unfolding bs by (simp add: batch_loss_def toy_defs routine_defs)
  have l1: "batch_loss toy_criterion (eval_mode toy_net) (?bs ! 1) = Inr 1"
    unfolding bs by (simp add: batch_loss_def toy_defs routine_defs)
  have all: "\<forall>i < length ?bs.
      batch_loss toy_criterion (eval_mode toy_net) (?bs ! i) = Inr ([1, 1] ! i)"
    using l0 l1 by (simp add: bs less_Suc_eq)
  have ws: "weighted_sum [1, 1] ?bs = 3" by (simp add: bs weighted_sum_def)
  have d: "dataset_len ?dl = 3" by (simp add: toy_defs)
  from validate_frame [of ?dl toy_net toy_criterion "[1, 1]"] n len all
  have "fst (validate ?dl toy_net toy_criterion) = toy_net\<lparr>training := False\<rparr>"
    and "snd (validate ?dl toy_net toy_criterion)
      = Inr (weighted_sum [1, 1] ?bs / real (dataset_len ?dl), traversed ?dl)"
    by blast+
  then have "validate ?dl toy_net toy_criterion
      = (toy_net\<lparr>training := False\<rparr>, Inr (1, traversed ?dl))"
    by (simp add: ws d prod_eq_iff)
  with n len l0 l1 show ?thesis by blast
qed

text \<open>
  The premise on the dataset cannot be dropped from the second half: on the loader of an
  empty dataset the call returns no mean loss, the division raises. The parameters are
  as they were.
\<close>

theorem validate_frame_counterexample:
  "next_batches (toy_loader []) = []
   \<and> dataset_len (toy_loader []) = 0
   \<and> snd (validate (toy_loader []) toy_net toy_criterion) = Inl ZeroDivisionError
   \<and> parameters (fst (validate (toy_loader []) toy_net toy_criterion)) = parameters toy_net"
  by (simp add: toy_next_batches) (simp add: toy_defs routine_defs)

section \<open>The training loop\<close>

lemma train_loader_after:
  "train autograd tdl m c opt = Inr (m', opt', l, tdl') \<Longrightarrow> tdl' = traversed tdl"
  by (auto simp: train_def iterate_eq split: sum.splits if_splits)

lemma validate_loader_after:
  "validate vdl m c = (m', Inr (l, vdl')) \<Longrightarrow> vdl' = traversed vdl"
  by (auto simp: validate_def iterate_eq Let_def split: sum.splits if_splits)

lemma get_accuracy_loader_after:
  "get_accuracy m dl = Inr (a, m', dl') \<Longrightarrow> dl' = traversed dl"
  by (auto simp: get_accuracy_def iterate_eq Let_def split: sum.splits counter.splits)

lemma cursor_traversed: "cursor (traversed dl) = Suc (cursor dl)"
  by (simp add: traversed_eq)

text \<open>
  One pass through the body of the loop appends one value to each history, prints a line
  exactly when the print-interval predicate holds of the epoch, and traverses each loader
  once, and once more when it prints.
\<close>

lemma epoch_body_effect:
  assumes "epoch_body autograd criterion print_every epoch s = Inr s'"
  shows "(\<exists>a. train_losses s' = train_losses s @ [a])
       \<and> (\<exists>b. valid_losses s' = valid_losses s @ [b])
       \<and> map log_epoch (console s') = map log_epoch (console s) @ filter (logs_on print_every) [epoch]
       \<and> cursor (run_train_loader s')
           = cursor (run_train_loader s) + 1 + length (filter (logs_on print_every) [epoch])
       \<and> cursor (run_valid_loader s')
           = cursor (run_valid_loader s) + 1 + length (filter (logs_on print_every) [epoch])
       \<and> shown s' = shown s"
  using assms
  by (auto simp: epoch_body_def Let_def logs_on_def cursor_traversed
      dest!: train_loader_after validate_loader_after get_accuracy_loader_after
      split: sum.splits prod.splits if_splits)

lemma for_epochs_append:
  "for_epochs autograd criterion print_every (xs @ ys) s
     = (case for_epochs autograd criterion print_every xs s of
          Inl e \<Rightarrow> Inl e
        | Inr s' \<Rightarrow> for_epochs autograd criterion print_every ys s')"
  by (induction xs arbitrary: s) (auto split: sum.splits)

lemma for_epochs_effect:
  "for_epochs autograd criterion print_every es s = Inr s' \<Longrightarrow>
     (\<exists>xs. train_losses s' = train_losses s @ xs \<and> length xs = length es)
     \<and> (\<exists>ys. valid_losses s' = valid_losses s @ ys \<and> length ys = length es)
     \<and> map log_epoch (console s') = map log_epoch (console s) @ filter (logs_on print_every) es
     \<and> cursor (run_train_loader s')
         = cursor (run_train_loader s) + length es + length (filter (logs_on print_every) es)
     \<and> cursor (run_valid_loader s')
         = cursor (run_valid_loader s) + length es + length (filter (logs_on print_every) es)
     \<and> shown s' = shown s"
proof (induction es arbitrary: s)
  case Nil
  then show ?case by simp
next
  case (Cons e es)
  from Cons.prems obtain s1 where
    body: "epoch_body autograd criterion print_every e s = Inr s1"
    and rest: "for_epochs autograd criterion print_every es s1 = Inr s'"
    by (auto split: sum.splits)
  note b = epoch_body_effect [OF body]
  note r = Cons.IH [OF rest]
  from b obtain a where a: "train_losses s1 = train_losses s @ [a]" by blast
  from b obtain v where v: "valid_losses s1 = valid_losses s @ [v]" by blast
  from r obtain xs where xs: "train_losses s' = train_losses s1 @ xs" "length xs = length es"
    by blast
  from r obtain ys where ys: "valid_losses s' = valid_losses s1 @ ys" "length ys = length es"
    by blast
  have t: "\<exists>zs. train_losses s' = train_losses s @ zs \<and> length zs = length (e # es)"
    using a xs by (intro exI [of _ "a # xs"]) simp
  have w: "\<exists>zs. valid_losses s' = valid_losses s @ zs \<and> length zs = length (e # es)"
    using v ys by (intro exI [of _ "v # ys"]) simp
  have l: "map log_epoch (console s')
      = map log_epoch (console s) @ filter (logs_on print_every) (e # es)"
    using b r by simp
  have ct: "cursor (run_train_loader s')
      = cursor (run_train_loader s) + length (e # es)
          + length (filter (logs_on print_every) (e # es))"
    using b r by simp
  have cv: "cursor (run_valid_loader s')
      = cursor (run_valid_loader s) + length (e # es)
          + length (filter (logs_on print_every) (e # es))"
    using b r by simp
  have sh: "shown s' = shown s" using b r by simp
  from t w l ct cv sh show ?case by blast
qed

lemma training_loop_for_epochs:
  "training_loop autograd m c opt tdl vdl epochs print_every
     = (case for_epochs autograd c print_every [0..<nat epochs] (initial_run m opt tdl vdl) of
          Inl e \<Rightarrow> Inl e
        | Inr s \<Rightarrow> Inr (s\<lparr>shown := Some (plot_losses (train_losses s) (valid_losses s))\<rparr>))"
  by (simp add: training_loop_def initial_run_def)

lemma training_loop_prefix:
  assumes run: "training_loop autograd m c opt tdl vdl epochs print_every = Inr r"
    and k: "k \<le> nat epochs"
  shows "\<exists>rk. training_loop autograd m c opt tdl vdl (int k) print_every = Inr rk
           \<and> train_losses rk = take k (train_losses r)
           \<and> valid_losses rk = take k (valid_losses r)"
proof -
  let ?s0 = "initial_run m opt tdl vdl"
  from run obtain s where
    s: "for_epochs autograd c print_every [0..<nat epochs] ?s0 = Inr s"
    and r: "r = s\<lparr>shown := Some (plot_losses (train_losses s) (valid_losses s))\<rparr>"
    by (auto simp: training_loop_for_epochs split: sum.splits)
  have split: "[0..<nat epochs] = [0..<k] @ [k..<nat epochs]"
    using k by (metis le_add_diff_inverse upt_add_eq_append zero_le)
  from s obtain sk where
    sk: "for_epochs autograd c print_every [0..<k] ?s0 = Inr sk"
    and rest: "for_epochs autograd c print_every [k..<nat epochs] sk = Inr s"
    unfolding split for_epochs_append by (auto split: sum.splits)
  from for_epochs_effect [OF sk] have
    lk: "length (train_losses sk) = k" "length (valid_losses sk) = k"
    by (auto simp: initial_run_def)
  from for_epochs_effect [OF rest] obtain xs ys where
    "train_losses s = train_losses sk @ xs" "valid_losses s = valid_losses sk @ ys"
    by blast
  then have tk: "take k (train_losses s) = train_losses sk"
    "take k (valid_losses s) = valid_losses sk"
    using lk by simp_all
  show ?thesis
    using sk r tk by (simp add: training_loop_for_epochs)
qed

lemma logs_on_iff:
  assumes "1 \<le> k"
  shows "logs_on k e = (\<exists>j \<ge> 1. int e = j * k - 1)"
proof
  assume "logs_on k e"
  then have m: "int e mod k = k - 1" by (simp add: logs_on_def)
  have "int e = (int e div k) * k + int e mod k" by simp
  then have eq: "int e = (int e div k + 1) * k - 1" using m by (simp add: algebra_simps)
  have "0 \<le> int e div k" using assms by (simp add: pos_imp_zdiv_nonneg_iff)
  then show "\<exists>j \<ge> 1. int e = j * k - 1" using eq by (intro exI [of _ "int e div k + 1"]) simp
next
  assume "\<exists>j \<ge> 1. int e = j * k - 1"
  then obtain j where j: "1 \<le> j" "int e = j * k - 1" by blast
  have "int e = (k - 1) + (j - 1) * k" using j by (simp add: algebra_simps)
  then have "int e mod k = (k - 1) mod k" by (metis mod_mult_self1)
  also have "\<dots> = k - 1" using assms by (intro mod_pos_pos_trivial) simp_all
  finally show "logs_on k e" by (simp add: logs_on_def)
qed

lemma toy_run_3_1:
  "\<exists>r. training_loop toy_autograd toy_net toy_criterion toy_sgd shuffled_loader
          (toy_loader mixed_batches) 3 1 = Inr r"
  by (simp add: training_loop_def epoch_body_def plot_losses_def upt_rec toy_defs routine_defs)

lemma toy_run_4_2:
  "\<exists>r. training_loop toy_autograd toy_net toy_criterion toy_sgd shuffled_loader
          (toy_loader mixed_batches) 4 2 = Inr r"
  by (simp add: training_loop_def epoch_body_def plot_losses_def upt_rec toy_defs routine_defs)

text \<open>
  C6: for every number of epochs N, a run of the training loop that reaches its end
  returns a training-loss history and a validation-loss history of length exactly N. Each
  epoch appends exactly one value to each history: the run of the first k epochs returns
  the first k values of both.
\<close>

theorem loss_history_lengths:
  assumes run: "training_loop autograd model0 criterion optimizer0 train_loader0 valid_loader0
                  epochs print_every = Inr r"
    and n: "0 \<le> epochs"
  shows "int (length (train_losses r)) = epochs \<and> int (length (valid_losses r)) = epochs
       \<and> (\<forall>k \<le> nat epochs.
             \<exists>rk. training_loop autograd model0 criterion optimizer0 train_loader0
                     valid_loader0 (int k) print_every = Inr rk
                \<and> train_losses rk = take k (train_losses r)
                \<and> valid_losses rk = take k (valid_losses r))"
proof -
  from run obtain s where
    s: "for_epochs autograd criterion print_every [0..<nat epochs]
          (initial_run model0 optimizer0 train_loader0 valid_loader0) = Inr s"
    and r: "r = s\<lparr>shown := Some (plot_losses (train_losses s) (valid_losses s))\<rparr>"
    by (auto simp: training_loop_for_epochs split: sum.splits)
  from for_epochs_effect [OF s] have
    "length (train_losses s) = nat epochs" "length (valid_losses s) = nat epochs"
    by (auto simp: initial_run_def)
  then have len: "int (length (train_losses r)) = epochs" "int (length (valid_losses r)) = epochs"
    using n r by simp_all
  from len training_loop_prefix [OF run] show ?thesis by blast
qed

theorem loss_history_lengths_witness:
  "\<exists>r. training_loop toy_autograd toy_net toy_criterion toy_sgd shuffled_loader
          (toy_loader mixed_batches) 3 1 = Inr r
      \<and> (0 :: int) \<le> 3
      \<and> length (train_losses r) = 3 \<and> length (valid_losses r) = 3"
proof -
  from toy_run_3_1 obtain r where
    r: "training_loop toy_autograd toy_net toy_criterion toy_sgd shuffled_loader
          (toy_loader mixed_batches) 3 1 = Inr r"
    by blast
  from loss_history_lengths [OF r] have
    "int (length (train_losses r)) = 3" "int (length (valid_losses r)) = 3"
    by simp_all
  then have "length (train_losses r) = 3" "length (valid_losses r) = 3" by linarith+
  with r show ?thesis by auto
qed

text \<open>
  C7: for every interval k of at least 1, a run of the training loop that reaches its end
  has printed one line for each epoch whose index satisfies the print-interval predicate,
  in order, and for no other epoch. These are the epochs k-1, 2k-1, 3k-1 and so on: every
  k-th epoch, counted from 1. The accuracies are measured on these epochs only: each
  loader is traversed once per epoch, by train or validate, and once more per printed
  line, by get_accuracy.
\<close>

theorem log_cadence:
  assumes run: "training_loop autograd model0 criterion optimizer0 train_loader0 valid_loader0
                  epochs k = Inr r"
    and k: "1 \<le> k"
  shows "map log_epoch (console r) = filter (logs_on k) [0..<nat epochs]
       \<and> (\<forall>e. logs_on k e = (\<exists>j \<ge> 1. int e = j * k - 1))
       \<and> cursor (run_train_loader r) = cursor train_loader0 + nat epochs + length (console r)
       \<and> cursor (run_valid_loader r) = cursor valid_loader0 + nat epochs + length (console r)"
proof -
  from run obtain s where
    s: "for_epochs autograd criterion k [0..<nat epochs]
          (initial_run model0 optimizer0 train_loader0 valid_loader0) = Inr s"
    and r: "r = s\<lparr>shown := Some (plot_losses (train_losses s) (valid_losses s))\<rparr>"
    by (auto simp: training_loop_for_epochs split: sum.splits)
  note e = for_epochs_effect [OF s]
  have lines: "map log_epoch (console r) = filter (logs_on k) [0..<nat epochs]"
    using e r by (simp add: initial_run_def)
  have "length (console r) = length (filter (logs_on k) [0..<nat epochs])"
    using lines by (metis length_map)
  then have cur:
    "cursor (run_train_loader r) = cursor train_loader0 + nat epochs + length (console r)"
    "cursor (run_valid_loader r) = cursor valid_loader0 + nat epochs + length (console r)"
    using e r by (simp_all add: initial_run_def)
  from lines cur logs_on_iff [OF k] show ?thesis by blast
qed

theorem log_cadence_witness:
  "\<exists>r. training_loop toy_autograd toy_net toy_criterion toy_sgd shuffled_loader
          (toy_loader mixed_batches) 4 2 = Inr r
      \<and> (1 :: int) \<le> 2
      \<and> map log_epoch (console r) = [1, 3]
      \<and> cursor (run_train_loader r) = 6 \<and> cursor (run_valid_loader r) = 6"
proof -
  from toy_run_4_2 obtain r where
    r: "training_loop toy_autograd toy_net toy_criterion toy_sgd shuffled_loader
          (toy_loader mixed_batches) 4 2 = Inr r"
    by blast
  have f: "filter (logs_on 2) [0..<4] = [1, 3]"
    by (simp add: logs_on_def upt_rec)
  from log_cadence [OF r] have
    l: "map log_epoch (console r) = [1, 3]"
    and c: "cursor (run_train_loader r) = cursor shuffled_loader + nat 4 + length (console r)"
      "cursor (run_valid_loader r) = cursor (toy_loader mixed_batches) + nat 4 + length (console r)"
    by (simp_all add: f)
  from l have "length (console r) = 2"
    by (metis length_map length_Cons list.size(3) numeral_2_eq_2)
  with c have "cursor (run_train_loader r) = 6" "cursor (run_valid_loader r) = 6"
    by (simp_all add: toy_defs)
  with r l show ?thesis by auto
qed

text \<open>
  An interval of 0 is refused as soon as the first epoch has been trained and validated:
  the remainder of the division raises.
\<close>

lemma print_every_zero:
  "training_loop toy_autograd toy_net toy_criterion toy_sgd shuffled_loader
     (toy_loader mixed_batches) 3 0 = Inl ZeroDivisionError"
  by (simp add: training_loop_def epoch_body_def upt_rec toy_defs routine_defs)

section \<open>The forward pass of the network\<close>

lemma is_image_height: "is_image c h w img \<Longrightarrow> 0 < c \<Longrightarrow> height img = h"
  by (cases img) (auto simp: is_image_def height_def)

lemma is_image_width: "is_image c h w img \<Longrightarrow> 0 < c \<Longrightarrow> 0 < h \<Longrightarrow> width img = w"
  by (cases img) (auto simp: is_image_def width_def split: list.splits)

lemma conv2d_image_shape:
  "is_image (out_channels layer) (height img - kernel_size layer + 1)
     (width img - kernel_size layer + 1) (conv2d_image layer img)"
  by (auto simp: is_image_def conv2d_image_def)

lemma conv2d_shape:
  assumes x: "has_shape4 n c h w x"
    and c: "in_channels layer = c" "0 < c"
    and k: "0 < kernel_size layer" "kernel_size layer \<le> h" "kernel_size layer \<le> w"
  shows "\<exists>y. conv2d_forward layer x = Inr y
           \<and> has_shape4 n (out_channels layer) (h - kernel_size layer + 1)
               (w - kernel_size layer + 1) y"
proof -
  have dims: "length img = c \<and> height img = h \<and> width img = w" if "img \<in> set x" for img
  proof -
    from x that have i: "is_image c h w img" by (simp add: has_shape4_def)
    have "0 < h" using k by simp
    with i c show ?thesis
      by (simp add: is_image_height is_image_width) (simp add: is_image_def)
  qed
  have ok: "conv2d_forward layer x = Inr (map (conv2d_image layer) x)"
    using dims c k by (auto simp: conv2d_forward_def)
  have "is_image (out_channels layer) (h - kernel_size layer + 1) (w - kernel_size layer + 1)
          (conv2d_image layer img)" if "img \<in> set x" for img
    using conv2d_image_shape [of layer img] dims [OF that] by simp
  then have "has_shape4 n (out_channels layer) (h - kernel_size layer + 1)
               (w - kernel_size layer + 1) (map (conv2d_image layer) x)"
    using x by (simp add: has_shape4_def)
  with ok show ?thesis by simp
qed

lemma tanh_shape: "has_shape4 n c h w x \<Longrightarrow> has_shape4 n c h w (tanh_forward x)"
  by (auto simp: has_shape4_def is_image_def tanh_forward_def)

lemma avg_pool2d_image_shape:
  "is_image (length img) ((height img - k) div k + 1) ((width img - k) div k + 1)
     (avg_pool2d_image k img)"
  by (auto simp: is_image_def avg_pool2d_image_def)

lemma avg_pool2d_shape:
  assumes x: "has_shape4 n c h w x" and c: "0 < c" and k: "0 < k" "k \<le> h" "k \<le> w"
  shows "\<exists>y. avg_pool2d_forward k x = Inr y
           \<and> has_shape4 n c ((h - k) div k + 1) ((w - k) div k + 1) y"
proof -
  have dims: "length img = c \<and> height img = h \<and> width img = w" if "img \<in> set x" for img
  proof -
    from x that have i: "is_image c h w img" by (simp add: has_shape4_def)
    have "0 < h" using k by simp
    with i c show ?thesis
      by (simp add: is_image_height is_image_width) (simp add: is_image_def)
  qed
  have ok: "avg_pool2d_forward k x = Inr (map (avg_pool2d_image k) x)"
    using dims k by (auto simp: avg_pool2d_forward_def)
  have "is_image c ((h - k) div k + 1) ((w - k) div k + 1) (avg_pool2d_image k img)"
    if "img \<in> set x" for img
    using avg_pool2d_image_shape [of img k] dims [OF that] by simp
  then have "has_shape4 n c ((h - k) div k + 1) ((w - k) div k + 1)
               (map (avg_pool2d_image k) x)"
    using x by (simp add: has_shape4_def)
  with ok show ?thesis by simp
qed

lemma length_concat_const:
  "\<forall>xs \<in> set xss. length xs = m \<Longrightarrow> length (concat xss) = length xss * m"
  by (induction xss) simp_all

lemma flatten_shape:
  "has_shape4 n c h w x \<Longrightarrow> has_shape2 n (c * h * w) (flatten x)"
proof -
  assume x: "has_shape4 n c h w x"
  have "length (concat (concat img)) = c * h * w" if "img \<in> set x" for img
  proof -
    from x that have i: "is_image c h w img" by (simp add: has_shape4_def)
    then have "length (concat img) = c * h"
      using length_concat_const [of img h] by (simp add: is_image_def)
    moreover have "\<forall>row \<in> set (concat img). length row = w"
      using i by (auto simp: is_image_def)
    ultimately show ?thesis
      using length_concat_const [of "concat img" w] by simp
  qed
  then show ?thesis using x by (simp add: has_shape2_def has_shape4_def flatten_def)
qed

lemma linear_shape:
  "has_shape2 n c x \<Longrightarrow> in_features layer = c \<Longrightarrow>
     \<exists>y. linear_forward layer x = Inr y \<and> has_shape2 n (out_features layer) y"
  by (auto simp: has_shape2_def linear_forward_def)

lemma tanh1_shape: "has_shape2 n c x \<Longrightarrow> has_shape2 n c (map (map tanh) x)"
  by (auto simp: has_shape2_def)

lemma sum_list_divide:
  "sum_list (map (\<lambda>v. f v / (d::real)) xs) = sum_list (map f xs) / d"
  by (induction xs) (simp_all add: add_divide_distrib)

lemma sum_list_exp_pos: "row \<noteq> [] \<Longrightarrow> 0 < sum_list (map exp (row :: real list))"
proof (induction row)
  case Nil
  then show ?case by simp
next
  case (Cons v row)
  have "0 \<le> sum_list (map exp row)" by (rule sum_list_nonneg) auto
  moreover have "0 < exp v" by simp
  ultimately have "0 < exp v + sum_list (map exp row)" by (rule add_pos_nonneg [rotated])
  then show ?case by simp
qed

lemma softmax_rows:
  assumes x: "has_shape2 n c logits" and c: "0 < c"
  shows "has_shape2 n c (softmax logits)
       \<and> (\<forall>row \<in> set (softmax logits). (\<forall>v \<in> set row. 0 \<le> v) \<and> sum_list row = 1)"
proof -
  have pos: "0 < sum_list (map exp row)" if "row \<in> set logits" for row
  proof -
    from x that c have "row \<noteq> []" by (auto simp: has_shape2_def)
    then show ?thesis by (rule sum_list_exp_pos)
  qed
  have shape: "has_shape2 n c (softmax logits)"
    using x by (auto simp: has_shape2_def softmax_def)
  have "(\<forall>v \<in> set r. 0 \<le> v) \<and> sum_list r = 1" if "r \<in> set (softmax logits)" for r
  proof -
    from that obtain row where row: "row \<in> set logits"
      and r: "r = map (\<lambda>v. exp v / sum_list (map exp row)) row"
      by (auto simp: softmax_def)
    have "sum_list r = sum_list (map exp row) / sum_list (map exp row)"
      unfolding r by (rule sum_list_divide)
    also have "\<dots> = 1" using pos [OF row] by simp
    finally have one: "sum_list r = 1" .
    have "\<forall>v \<in> set r. 0 \<le> v" using pos [OF row] by (auto simp: r)
    with one show ?thesis by simp
  qed
  with shape show ?thesis by blast
qed

lemma Conv2d_attributes:
  "in_channels (Conv2d cin cout k w0 b0) = cin"
  "out_channels (Conv2d cin cout k w0 b0) = cout"
  "kernel_size (Conv2d cin cout k w0 b0) = k"
  by (simp_all add: Conv2d_def)

lemma Linear_attributes:
  "in_features (Linear fin fout w0 b0) = fin"
  "out_features (Linear fin fout w0 b0) = fout"
  by (simp_all add: Linear_def)

lemma feature_extractor_shape:
  assumes x: "has_shape4 n 1 32 32 x"
  shows "\<exists>y. feature_sequential (feature_extractor (LeNet5_init n_classes rnd)) x = Inr y
           \<and> has_shape4 n 120 1 1 y"
proof -
  from conv2d_shape [OF x, of "Conv2d 1 6 5 (rnd 0) (rnd 1)"]
  obtain y1 where y1: "conv2d_forward (Conv2d 1 6 5 (rnd 0) (rnd 1)) x = Inr y1"
    and s1: "has_shape4 n 6 28 28 y1"
    by (auto simp: Conv2d_attributes)
  have s2: "has_shape4 n 6 28 28 (tanh_forward y1)" by (rule tanh_shape [OF s1])
  from avg_pool2d_shape [OF s2, of 2]
  obtain y3 where y3: "avg_pool2d_forward 2 (tanh_forward y1) = Inr y3"
    and s3: "has_shape4 n 6 14 14 y3"
    by auto
  from conv2d_shape [OF s3, of "Conv2d 6 16 5 (rnd 2) (rnd 3)"]
  obtain y4 where y4: "conv2d_forward (Conv2d 6 16 5 (rnd 2) (rnd 3)) y3 = Inr y4"
    and s4: "has_shape4 n 16 10 10 y4"
    by (auto simp: Conv2d_attributes)
  have s5: "has_shape4 n 16 10 10 (tanh_forward y4)" by (rule tanh_shape [OF s4])
  from avg_pool2d_shape [OF s5, of 2]
  obtain y6 where y6: "avg_pool2d_forward 2 (tanh_forward y4) = Inr y6"
    and s6: "has_shape4 n 16 5 5 y6"
    by auto
  from conv2d_shape [OF s6, of "Conv2d 16 120 5 (rnd 4) (rnd 5)"]
  obtain y7 where y7: "conv2d_forward (Conv2d 16 120 5 (rnd 4) (rnd 5)) y6 = Inr y7"
    and s7: "has_shape4 n 120 1 1 y7"
    by (auto simp: Conv2d_attributes)
  have s8: "has_shape4 n 120 1 1 (tanh_forward y7)" by (rule tanh_shape [OF s7])
  have "feature_sequential (feature_extractor (LeNet5_init n_classes rnd)) x
      = Inr (tanh_forward y7)"
    using y1 y3 y4 y6 y7 by (simp add: LeNet5_init_def and_then_def)
  with s8 show ?thesis by blast
qed

lemma classifier_shape:
  assumes x: "has_shape2 n 120 x"
  shows "\<exists>y. classifier_sequential (classifier (LeNet5_init n_classes rnd)) x = Inr y
           \<and> has_shape2 n n_classes y"
proof -
  from linear_shape [OF x, of "Linear 120 84 (rnd 6) (rnd 7)"]
  obtain y1 where y1: "linear_forward (Linear 120 84 (rnd 6) (rnd 7)) x = Inr y1"
    and s1: "has_shape2 n 84 y1"
    by (auto simp: Linear_attributes)
  have s2: "has_shape2 n 84 (map (map tanh) y1)" by (rule tanh1_shape [OF s1])
  from linear_shape [OF s2, of "Linear 84 n_classes (rnd 8) (rnd 9)"]
  obtain y3 where
    y3: "linear_forward (Linear 84 n_classes (rnd 8) (rnd 9)) (map (map tanh) y1) = Inr y3"
    and s3: "has_shape2 n n_classes y3"
    by (auto simp: Linear_attributes)
  have "classifier_sequential (classifier (LeNet5_init n_classes rnd)) x = Inr y3"
    using y1 y3 by (simp add: LeNet5_init_def and_then_def)
  with s3 show ?thesis by blast
qed

text \<open>
  C1: for every input batch x of shape (N, 1, 32, 32), the forward pass of the model
  returns a pair (logits, probs) of tensors of shape (N, 10) each; probs is the row-wise
  softmax of logits, every entry of probs is non-negative, and every row of probs sums
  to 1. The initial values of the parameters are arbitrary, so this holds of every value
  the parameters of the ten tensors can take. The entries are real numbers here, so a row
  sums to 1 exactly; in the library's floating point it does so up to rounding.
\<close>

theorem LeNet5_forward_contract:
  assumes x: "has_shape4 n 1 32 32 x"
  shows "\<exists>logits probs.
           LeNet5_forward (LeNet5_init N_CLASSES rnd) x = Inr (logits, probs)
         \<and> apply_model (LeNet5_module rnd) x = Inr (logits, probs)
         \<and> has_shape2 n 10 logits \<and> has_shape2 n 10 probs
         \<and> probs = softmax logits
         \<and> (\<forall>row \<in> set probs. (\<forall>v \<in> set row. 0 \<le> v) \<and> sum_list row = 1)"
proof -
  from feature_extractor_shape [OF x, of N_CLASSES rnd]
  obtain x1 where x1: "feature_sequential (feature_extractor (LeNet5_init N_CLASSES rnd)) x = Inr x1"
    and s1: "has_shape4 n 120 1 1 x1"
    by blast
  have s2: "has_shape2 n 120 (flatten x1)"
    using flatten_shape [OF s1] by simp
  from classifier_shape [OF s2, of N_CLASSES rnd]
  obtain logits where
    l: "classifier_sequential (classifier (LeNet5_init N_CLASSES rnd)) (flatten x1) = Inr logits"
    and s3: "has_shape2 n 10 logits"
    by (auto simp: N_CLASSES_def)
  have fw: "LeNet5_forward (LeNet5_init N_CLASSES rnd) x = Inr (logits, softmax logits)"
    by (simp add: LeNet5_forward_def x1 l)
  have ap: "apply_model (LeNet5_module rnd) x = Inr (logits, softmax logits)"
    by (simp add: apply_model_def LeNet5_module_def fw)
  from softmax_rows [OF s3] fw ap s3 show ?thesis by simp
qed

theorem LeNet5_forward_contract_witness:
  "has_shape4 2 1 32 32 [zero_image, zero_image]
   \<and> (\<exists>logits probs.
         LeNet5_forward (LeNet5_init N_CLASSES (\<lambda>k idx. 0)) [zero_image, zero_image]
           = Inr (logits, probs)
       \<and> length logits = 2 \<and> length probs = 2 \<and> probs = softmax logits
       \<and> sum_list (probs ! 0) = 1 \<and> sum_list (probs ! 1) = 1)"
proof -
  have h: "has_shape4 2 1 32 32 [zero_image, zero_image]"
    by (simp add: has_shape4_def is_image_def zero_image_def)
  from LeNet5_forward_contract [OF h, of "\<lambda>k idx. 0"] obtain logits probs where
    fw: "LeNet5_forward (LeNet5_init N_CLASSES (\<lambda>k idx. 0)) [zero_image, zero_image]
           = Inr (logits, probs)"
    and s: "has_shape2 2 10 logits" "has_shape2 2 10 probs" "probs = softmax logits"
    and rows: "\<forall>row \<in> set probs. (\<forall>v \<in> set row. 0 \<le> v) \<and> sum_list row = 1"
    by blast
  have len: "length logits = 2" "length probs = 2"
    using s by (simp_all add: has_shape2_def)
  then have "probs ! 0 \<in> set probs" "probs ! 1 \<in> set probs" by simp_all
  with rows have "sum_list (probs ! 0) = 1" "sum_list (probs ! 1) = 1" by blast+
  with h fw len s show ?thesis by blast
qed

text \<open>
  In exact arithmetic the softmax of a row is a strictly increasing function of its
  entries, so it keeps the arg-max of the row. The library computes the softmax in 32-bit
  floating point, where close logits can round to equal probabilities; that rounding is
  outside the model.
\<close>

lemma argmax_softmax_real:
  "map argmax (softmax logits) = map argmax logits"
proof -
  have "argmax (map (\<lambda>v. exp v / sum_list (map exp row)) row) = argmax row" for row :: "real list"
  proof (cases "row = []")
    case True
    then show ?thesis by simp
  next
    case False
    then have pos: "0 < sum_list (map exp row)" by (rule sum_list_exp_pos)
    have "(a < b) = (exp a / sum_list (map exp row) < exp b / sum_list (map exp row))"
      for a b :: real
      using pos by (auto simp: divide_less_cancel)
    then show ?thesis by (rule argmax_strict_mono)
  qed
  then show ?thesis by (simp add: softmax_def)
qed

end
